theory Spec2Isabelle
  imports Main "HOL-Library.Word"
begin

section \<open>JavaScript strings\<close>

text \<open>
  A JavaScript string is a sequence of UTF-16 code units, and \<open>length\<close>, \<open>slice\<close>,
  \<open>lastIndexOf\<close> and the regular expressions of the script all count code units. The
  ellipsis \<open>U+2026\<close> that \<open>shorten\<close> appends is therefore one element.
  \<open>js\<close> embeds an ASCII literal of the source.
\<close>

type_synonym jschar = "16 word"
type_synonym jsstring = "jschar list"

definition js :: "string \<Rightarrow> jsstring" where
  "js s = map (\<lambda>c. of_nat (of_char c)) s"

definition SPACE :: jschar where "SPACE = 0x20"
definition ELLIPSIS :: jschar where "ELLIPSIS = 0x2026"
definition SLASH :: jschar where "SLASH = 0x2F"

text \<open>
  The class \<open>\s\<close> of a JavaScript regular expression, which is also what
  \<open>String.prototype.trim\<close> strips: WhiteSpace and LineTerminator of ECMA-262.
\<close>

definition is_space :: "jschar \<Rightarrow> bool" where
  "is_space c \<longleftrightarrow>
     c = 0x09 \<or> c = 0x0A \<or> c = 0x0B \<or> c = 0x0C \<or> c = 0x0D \<or> c = 0x20 \<or> c = 0xA0 \<or>
     c = 0x1680 \<or> (0x2000 \<le> c \<and> c \<le> 0x200A) \<or> c = 0x2028 \<or> c = 0x2029 \<or>
     c = 0x202F \<or> c = 0x205F \<or> c = 0x3000 \<or> c = 0xFEFF"

text \<open>\<open>s.replace(/\s+/g, ' ')\<close>: every maximal run of whitespace becomes one space.\<close>

function collapse_ws :: "jsstring \<Rightarrow> jsstring" where
  "collapse_ws [] = []"
| "collapse_ws (c # cs) =
     (if is_space c then SPACE # collapse_ws (dropWhile is_space cs)
      else c # collapse_ws cs)"
  by pat_completeness auto
termination
  by (relation "measure length") (auto simp: less_Suc_eq_le length_dropWhile_le)

definition trim :: "jsstring \<Rightarrow> jsstring" where
  "trim s = rev (dropWhile is_space (rev (dropWhile is_space s)))"

text \<open>\<open>s.lastIndexOf(c)\<close>: the index of the last occurrence, \<open>-1\<close> when there is none.\<close>

fun lastIndexOf_from :: "int \<Rightarrow> int \<Rightarrow> jschar \<Rightarrow> jsstring \<Rightarrow> int" where
  "lastIndexOf_from i found c [] = found"
| "lastIndexOf_from i found c (x # xs) =
     lastIndexOf_from (i + 1) (if x = c then i else found) c xs"

definition lastIndexOf :: "jsstring \<Rightarrow> jschar \<Rightarrow> int" where
  "lastIndexOf s c = lastIndexOf_from 0 (- 1) c s"

text \<open>\<open>s.slice(0, k)\<close> for an integer \<open>k \<ge> 0\<close>.\<close>

definition slice0 :: "jsstring \<Rightarrow> int \<Rightarrow> jsstring" where
  "slice0 s k = take (nat k) s"

text \<open>\<open>s.replace(/[.,;:!?-]+$/, '')\<close>: the trailing run of punctuation is removed.\<close>

definition is_trailing_punct :: "jschar \<Rightarrow> bool" where
  "is_trailing_punct c \<longleftrightarrow> c \<in> set (js ''.,;:!?-'')"

definition strip_trailing_punct :: "jsstring \<Rightarrow> jsstring" where
  "strip_trailing_punct s = rev (dropWhile is_trailing_punct (rev s))"

section \<open>Text normalizer: \<open>shorten\<close>\<close>

text \<open>
  \<^verbatim>\<open>
  function shorten(text, limit = 120) {
    if (!text) return '';
    const clean = String(text).replace(/\s+/g, ' ').trim();
    if (clean.length <= limit) return clean;
    const cutoff = Math.max(0, limit - 1);
    let slice = clean.slice(0, cutoff);
    const lastSpace = slice.lastIndexOf(' ');
    if (lastSpace > 60) slice = slice.slice(0, lastSpace);
    return slice.replace(/[.,;:!?-]+$/, '') + '...';      // U+2026
  }
  \<close>
  An absent argument (\<open>undefined\<close>, \<open>null\<close>) is \<open>None\<close>; it and the empty string are
  the falsy inputs. The limit is a JavaScript number, here an integer of either sign.
\<close>

definition DEFAULT_LIMIT :: int where "DEFAULT_LIMIT = 120"

definition shorten :: "jsstring option \<Rightarrow> int \<Rightarrow> jsstring" where
  "shorten text limit =
     (case text of
        None \<Rightarrow> []
      | Some t \<Rightarrow>
          if t = [] then []
          else
            let clean = trim (collapse_ws t) in
            if int (length clean) \<le> limit then clean
            else
              let cutoff = max 0 (limit - 1);
                  slice = slice0 clean cutoff;
                  lastSpace = lastIndexOf slice SPACE;
                  slice' = (if lastSpace > 60 then slice0 slice lastSpace else slice)
              in strip_trailing_punct slice' @ [ELLIPSIS])"

text \<open>
  A string is already normalised when its only whitespace is single spaces between
  other characters.
\<close>

fun single_spaced :: "jsstring \<Rightarrow> bool" where
  "single_spaced [] \<longleftrightarrow> True"
| "single_spaced [c] \<longleftrightarrow> True"
| "single_spaced (c # d # cs) \<longleftrightarrow> \<not> (is_space c \<and> is_space d) \<and> single_spaced (d # cs)"

definition normalised :: "jsstring \<Rightarrow> bool" where
  "normalised s \<longleftrightarrow>
     list_all (\<lambda>c. is_space c = (c = SPACE)) s \<and> single_spaced s \<and>
     (s = [] \<or> (\<not> is_space (hd s) \<and> \<not> is_space (last s)))"

section \<open>Values that may be absent\<close>

text \<open>
  A selector that finds no attribute gives \<open>undefined\<close>, here \<open>None\<close>. \<open>a || b\<close>
  is \<open>a\<close> when \<open>a\<close> is truthy (a non-empty string) and \<open>b\<close> otherwise; \<open>a || ''\<close>
  is therefore always a string.
\<close>

definition truthy :: "jsstring option \<Rightarrow> bool" where
  "truthy a = (case a of None \<Rightarrow> False | Some s \<Rightarrow> s \<noteq> [])"

definition js_or :: "jsstring option \<Rightarrow> jsstring option \<Rightarrow> jsstring option" where
  "js_or a b = (if truthy a then a else b)"

definition or_empty :: "jsstring option \<Rightarrow> jsstring" where
  "or_empty a = (case js_or a (Some []) of Some s \<Rightarrow> s | None \<Rightarrow> [])"

definition startsWith :: "jsstring \<Rightarrow> jsstring \<Rightarrow> bool" where
  "startsWith s p = (take (length p) s = p)"

text \<open>A regular expression that is a plain substring, tested anywhere in \<open>s\<close>.\<close>

fun js_includes :: "jsstring \<Rightarrow> jsstring \<Rightarrow> bool" where
  "js_includes [] sub = (sub = [])"
| "js_includes (c # cs) sub = (startsWith (c # cs) sub \<or> js_includes cs sub)"

text \<open>\<open>s.replace(/c/g, rep)\<close> for a single character \<open>c\<close>.\<close>

definition replace_all :: "jschar \<Rightarrow> jsstring \<Rightarrow> jsstring \<Rightarrow> jsstring" where
  "replace_all c rep s = concat (map (\<lambda>x. if x = c then rep else [x]) s)"

fun join :: "jsstring \<Rightarrow> jsstring list \<Rightarrow> jsstring" where
  "join sep [] = []"
| "join sep [x] = x"
| "join sep (x # y # ys) = x @ sep @ join sep (y # ys)"

section \<open>Link collection: \<open>parseLinks\<close>\<close>

text \<open>
  \<^verbatim>\<open>
  function parseLinks(csv) {
    const rows = parse(csv, { columns: true, skip_empty_lines: true });
    const links = rows
      .map(r => (r['Link'] || r['link'] || r['URL'] || r['url'] || '').trim())
      .filter(Boolean);
    return Array.from(new Set(links));
  }
  \<close>
  The CSV reader is a library; its result, one object per data row keyed by the header's
  column names, is the input here. A \<open>Set\<close> keeps its elements in insertion order.
\<close>

type_synonym row = "jsstring \<rightharpoonup> jsstring"

definition link_cell :: "row \<Rightarrow> jsstring" where
  "link_cell r =
     trim (or_empty (js_or (js_or (js_or (r (js ''Link'')) (r (js ''link'')))
                                  (r (js ''URL''))) (r (js ''url''))))"

definition set_add :: "jsstring list \<Rightarrow> jsstring \<Rightarrow> jsstring list" where
  "set_add seen x = (if x \<in> set seen then seen else seen @ [x])"

definition array_from_set :: "jsstring list \<Rightarrow> jsstring list" where
  "array_from_set xs = foldl set_add [] xs"

definition parseLinks :: "row list \<Rightarrow> jsstring list" where
  "parseLinks rows = array_from_set (filter (\<lambda>l. l \<noteq> []) (map link_cell rows))"

text \<open>
  The words of the specification, for comparison: a column name is accepted when it is
  "Link" or "URL" in any letter case, and duplicates are dropped keeping the first
  occurrence.
\<close>

definition lower_ascii :: "jschar \<Rightarrow> jschar" where
  "lower_ascii c = (if 0x41 \<le> c \<and> c \<le> 0x5A then c + 0x20 else c)"

definition spec_link_column :: "jsstring \<Rightarrow> bool" where
  "spec_link_column name \<longleftrightarrow>
     map lower_ascii name = js ''link'' \<or> map lower_ascii name = js ''url''"

fun first_seen :: "jsstring list \<Rightarrow> jsstring list" where
  "first_seen [] = []"
| "first_seen (x # xs) = x # filter (\<lambda>y. y \<noteq> x) (first_seen xs)"

section \<open>Extracted metadata and gallery items\<close>

text \<open>
  \<open>{ title, description, image }\<close> is what both extractors return; the orchestrator's
  item has the same three fields and the link. The image field is named \<open>image_url\<close>
  here, \<open>image\<close> being the image of a set in HOL.
\<close>

record extracted_meta =
  title :: jsstring
  description :: jsstring
  image_url :: jsstring

record gallery_item = extracted_meta +
  url :: jsstring

definition DEFAULT_DESC :: jsstring where
  "DEFAULT_DESC = js ''Professional presentation template with modern, editable slides.''"

definition FALLBACK_META :: extracted_meta where
  "FALLBACK_META = \<lparr>title = [], description = DEFAULT_DESC, image_url = []\<rparr>"

definition or_default :: "jsstring \<Rightarrow> jsstring" where
  "or_default d = (if d \<noteq> [] then d else DEFAULT_DESC)"

text \<open>\<open>if (image && image.startsWith('//')) image = 'https:' + image\<close>\<close>

definition fix_protocol :: "jsstring \<Rightarrow> jsstring" where
  "fix_protocol img =
     (if img \<noteq> [] \<and> startsWith img (js ''//'') then js ''https:'' @ img else img)"

definition is_http_url :: "jsstring \<Rightarrow> bool" where
  "is_http_url u \<longleftrightarrow> startsWith u (js ''http://'') \<or> startsWith u (js ''https://'')"

definition is_uploads_path :: "jsstring \<Rightarrow> bool" where
  "is_uploads_path u \<longleftrightarrow> js_includes u (js ''wp-content/uploads'')"

section \<open>Static extractor: \<open>scrapeWithCheerio\<close>\<close>

text \<open>
  What the selectors of the function find in the fetched document. \<open>text()\<close> of an empty
  selection is the empty string, \<open>attr\<close> of one is \<open>undefined\<close>. Each \<open>img\<close>
  element is given by its \<open>src\<close> and \<open>data-src\<close> attributes, in document order.
\<close>

record static_page =
  h1_first_text :: jsstring
  meta_og_title :: "jsstring option"
  title_text :: jsstring
  about_next_text :: jsstring
  meta_description :: "jsstring option"
  meta_og_description :: "jsstring option"
  meta_og_image :: "jsstring option"
  link_image_src :: "jsstring option"
  img_attrs :: "(jsstring option \<times> jsstring option) list"

text \<open>
  \<open>$('img').map((_, el) => $(el).attr('src') || $(el).attr('data-src')).get()\<close> leaves
  out the elements for which the callback gives \<open>undefined\<close>;
  \<open>.find(u => /wp-content\/uploads|^https?:\/\//.test(u))\<close> takes the first match.
\<close>

definition static_img :: "(jsstring option \<times> jsstring option) list \<Rightarrow> jsstring option" where
  "static_img attrs =
     find (\<lambda>u. is_uploads_path u \<or> is_http_url u)
       (List.map_filter (\<lambda>(src, data_src). js_or src data_src) attrs)"

text \<open>
  The whole body is inside \<open>try\<close>; \<open>None\<close> is the request or anything after it
  throwing, which the \<open>catch\<close> turns into the fallback.
\<close>

definition scrapeWithCheerio :: "static_page option \<Rightarrow> extracted_meta" where
  "scrapeWithCheerio fetched =
     (case fetched of
        None \<Rightarrow> FALLBACK_META
      | Some pg \<Rightarrow>
          let title = or_empty (js_or (js_or (Some (trim (h1_first_text pg))) (meta_og_title pg))
                                      (Some (trim (title_text pg))));
              desc = or_empty (js_or (js_or (Some (trim (collapse_ws (about_next_text pg))))
                                            (meta_description pg))
                                     (meta_og_description pg));
              img = or_empty (js_or (js_or (meta_og_image pg) (link_image_src pg))
                                    (static_img (img_attrs pg)))
          in \<lparr>title = title,
              description = shorten (Some (or_default desc)) DEFAULT_LIMIT,
              image_url = fix_protocol img\<rparr>)"

section \<open>Rendered extractor: \<open>scrapeWithPuppeteer\<close>\<close>

text \<open>
  What the browser does during one call. An awaited call that rejects is \<open>False\<close> or
  \<open>None\<close>. \<open>xpath_about\<close> is the array \<open>page.$x\<close> resolves to, each handle given by
  the \<open>tagName\<close> and \<open>textContent\<close> of its following sibling elements.
  \<open>close_ok\<close> is the first call of \<open>page.close()\<close> and \<open>close_again_ok\<close> the second,
  made by the \<open>catch\<close> when the first one threw.
\<close>

record page_script =
  newPage_ok :: bool
  setUserAgent_ok :: bool
  goto_ok :: bool
  waitForTimeout_ok :: bool
  eval_h1 :: "jsstring option"
  eval_og_title :: "jsstring option"
  page_title :: "jsstring option"
  eval_description :: "jsstring option"
  eval_og_description :: "jsstring option"
  xpath_about :: "(jsstring \<times> jsstring) list list option"
  evaluate_ok :: bool
  eval_og_image :: "jsstring option"
  eval_imgs :: "(jsstring option \<times> jsstring option) list option"
  close_ok :: bool
  close_again_ok :: bool

datatype error =
    SheetFailed
  | NoLinksFound
  | LaunchFailed
  | NewPageFailed
  | SetUserAgentFailed
  | PageCloseFailed
  | BrowserCloseFailed
  | WriteFailed jsstring

datatype event =
    Launch
  | CallCheerio jsstring
  | CallPuppeteer jsstring
  | NewPage
  | ClosePage bool
  | Upload jsstring
  | FetchImage jsstring
  | UploadStream jsstring
  | BrowserClose

text \<open>\<open>promise.catch(() => '')\<close>\<close>

definition catch_empty :: "jsstring option \<Rightarrow> jsstring" where
  "catch_empty r = (case r of Some s \<Rightarrow> s | None \<Rightarrow> [])"

text \<open>\<open>/H[1-4]/.test(tagName)\<close>\<close>

fun is_heading_tag :: "jsstring \<Rightarrow> bool" where
  "is_heading_tag (a # b # cs) =
     ((a = 0x48 \<and> 0x31 \<le> b \<and> b \<le> 0x34) \<or> is_heading_tag (b # cs))"
| "is_heading_tag _ = False"

text \<open>
  \<^verbatim>\<open>
  let cur = h.nextElementSibling; let txt = ''; let guard = 0;
  while (cur && guard++ < 20) {
    if (/H[1-4]/.test(cur.tagName)) break;
    txt += ' ' + (cur.textContent || '');
    cur = cur.nextElementSibling;
  }
  return txt;
  \<close>
\<close>

fun walk_siblings :: "nat \<Rightarrow> (jsstring \<times> jsstring) list \<Rightarrow> jsstring \<Rightarrow> jsstring" where
  "walk_siblings guard [] txt = txt"
| "walk_siblings guard ((tagName, textContent) # rest) txt =
     (if guard < 20 then
        (if is_heading_tag tagName then txt
         else walk_siblings (guard + 1) rest (txt @ SPACE # textContent))
      else txt)"

definition rendered_title :: "page_script \<Rightarrow> jsstring option" where
  "rendered_title p =
     (let h1 = catch_empty (map_option trim (eval_h1 p)) in
      if h1 \<noteq> [] then Some h1
      else
        let og = catch_empty (eval_og_title p) in
        if og \<noteq> [] then Some og else page_title p)"

definition rendered_description :: "page_script \<Rightarrow> jsstring option" where
  "rendered_description p =
     (let ogDesc = catch_empty (eval_description p);
          ogDesc2 = catch_empty (eval_og_description p);
          description = (if ogDesc \<noteq> [] then ogDesc else ogDesc2)
      in
        if description \<noteq> [] then Some (shorten (Some (or_default description)) DEFAULT_LIMIT)
        else
          (case xpath_about p of
             None \<Rightarrow> None
           | Some [] \<Rightarrow> Some (shorten (Some (or_default description)) DEFAULT_LIMIT)
           | Some (handle # _) \<Rightarrow>
               if evaluate_ok p then
                 Some (shorten (Some (or_default (trim (collapse_ws (walk_siblings 0 handle [])))))
                         DEFAULT_LIMIT)
               else None))"

text \<open>
  \<^verbatim>\<open>
  const srcs = els.map(el => el.getAttribute('src') || el.getAttribute('data-src') || '');
  const cf = srcs.find(u => /wp-content\/uploads/.test(u));
  return cf || srcs.find(u => /^https?:\/\//.test(u)) || '';
  \<close>
\<close>

definition rendered_img :: "(jsstring option \<times> jsstring option) list \<Rightarrow> jsstring" where
  "rendered_img attrs =
     (let srcs = map (\<lambda>(src, data_src). or_empty (js_or src data_src)) attrs;
          cf = find is_uploads_path srcs
      in or_empty (js_or cf (find is_http_url srcs)))"

definition rendered_image :: "page_script \<Rightarrow> jsstring" where
  "rendered_image p =
     (let img = catch_empty (eval_og_image p);
          img' = (if img = [] then catch_empty (map_option rendered_img (eval_imgs p))
                  else img)
      in fix_protocol img')"

text \<open>
  Lines 92 to 128, the body of the \<open>try\<close> before \<open>page.close()\<close>: \<open>None\<close> when an
  awaited call without a \<open>catch\<close> of its own rejects.
\<close>

definition puppeteer_extract :: "page_script \<Rightarrow> extracted_meta option" where
  "puppeteer_extract p =
     (if \<not> goto_ok p then None
      else if \<not> waitForTimeout_ok p then None
      else
        (case rendered_title p of
           None \<Rightarrow> None
         | Some t \<Rightarrow>
             (case rendered_description p of
                None \<Rightarrow> None
              | Some d \<Rightarrow> Some \<lparr>title = t, description = d, image_url = rendered_image p\<rparr>)))"

text \<open>
  \<^verbatim>\<open>
  async function scrapeWithPuppeteer(browser, url) {
    const page = await browser.newPage();
    await page.setUserAgent('...');
    try {
      ...
      await page.close();
      return { title, description, image };
    } catch (e) {
      await page.close();
      return { title: '', description: '...', image: '' };
    }
  }
  \<close>
  The result is \<open>Inl\<close> when the returned promise rejects. The events are the pages
  opened and the calls of \<open>page.close()\<close> with their outcome.
\<close>

definition scrapeWithPuppeteer :: "page_script \<Rightarrow> (error + extracted_meta) \<times> event list" where
  "scrapeWithPuppeteer p =
     (if \<not> newPage_ok p then (Inl NewPageFailed, [])
      else if \<not> setUserAgent_ok p then (Inl SetUserAgentFailed, [NewPage])
      else
        (case puppeteer_extract p of
           Some m \<Rightarrow>
             if close_ok p then (Inr m, [NewPage, ClosePage True])
             else if close_again_ok p
               then (Inr FALLBACK_META, [NewPage, ClosePage False, ClosePage True])
               else (Inl PageCloseFailed, [NewPage, ClosePage False, ClosePage False])
         | None \<Rightarrow>
             if close_ok p then (Inr FALLBACK_META, [NewPage, ClosePage True])
             else (Inl PageCloseFailed, [NewPage, ClosePage False])))"

section \<open>Image rehoster: \<open>uploadToCloudinary\<close>\<close>

text \<open>
  The hosting provider and the image's origin, as functions of the image URL:
  \<open>upload\<close> is \<open>cloudinary.uploader.upload\<close> and \<open>upload_stream\<close> the streamed upload,
  each resolving to the response's \<open>secure_url\<close> or rejecting (\<open>None\<close>);
  \<open>fetch_image_ok\<close> is the direct download of the bytes.
\<close>

record upload_script =
  upload :: "jsstring \<Rightarrow> jsstring option"
  fetch_image_ok :: "jsstring \<Rightarrow> bool"
  upload_stream :: "jsstring \<Rightarrow> jsstring option"

definition uploadToCloudinary :: "upload_script \<Rightarrow> jsstring \<Rightarrow> jsstring \<times> event list" where
  "uploadToCloudinary c imageUrl =
     (if imageUrl = [] then ([], [])
      else
        (case upload c imageUrl of
           Some secure_url \<Rightarrow> (secure_url, [Upload imageUrl])
         | None \<Rightarrow>
             if \<not> fetch_image_ok c imageUrl then ([], [Upload imageUrl, FetchImage imageUrl])
             else
               (case upload_stream c imageUrl of
                  Some secure_url \<Rightarrow>
                    (secure_url, [Upload imageUrl, FetchImage imageUrl, UploadStream imageUrl])
                | None \<Rightarrow> ([], [Upload imageUrl, FetchImage imageUrl, UploadStream imageUrl]))))"

section \<open>Output renderer: \<open>htmlTemplate\<close> and \<open>writeArtifacts\<close>\<close>

definition AMP :: jschar where "AMP = 0x26"
definition LT :: jschar where "LT = 0x3C"
definition GT :: jschar where "GT = 0x3E"
definition DQUOTE :: jschar where "DQUOTE = 0x22"
definition COMMA :: jschar where "COMMA = 0x2C"
definition NEWLINE :: jschar where "NEWLINE = 0x0A"

text \<open>
  \<^verbatim>\<open>
  const esc = s => String(s || '').replace(/&/g,'&amp;').replace(/</g,'&lt;')
                                  .replace(/>/g,'&gt;').replace(/"/g,'&quot;');
  \<close>
\<close>

definition esc :: "jsstring \<Rightarrow> jsstring" where
  "esc s =
     replace_all DQUOTE (js ''&quot;'')
       (replace_all GT (js ''&gt;'')
         (replace_all LT (js ''&lt;'')
           (replace_all AMP (js ''&amp;'') s)))"

definition css :: jsstring where
  \<open>css =
     js ''\<newline>'' @
     js ''  :root { --gap: 16px; --radius: 14px; --shadow: 0 6px 20px '' @
     js ''rgba(0,0,0,0.08); --blue: #0B5FFF; --blue-dark: #0A4EE0; }\<newline>'' @
     js ''  * { box-sizing: border-box; }\<newline>'' @
     js ''  body { margin: 0; padding: 40px 20px; font-family: system-ui, '' @
     js ''-apple-system, Segoe UI, Roboto, Inter, Arial, sans-serif; color: '' @
     js ''#111; background: #fafafa; }\<newline>'' @
     js ''  .wrap { max-width: 1040px; margin: 0 auto; }\<newline>'' @
     js ''  h1 { font-size: 44px; line-height: 1.12; margin: 0 0 8px; '' @
     js ''letter-spacing: -0.02em; }\<newline>'' @
     js ''  .subtitle { font-size: 18px; color: #444; margin-bottom: 28px; '' @
     js ''}\<newline>'' @
     js ''  hr { border: none; border-top: 1px solid #e9e9e9; margin: '' @
     js ''16px 0 28px; }\<newline>'' @
     js ''  .grid { display: grid; grid-template-columns: repeat(2, minmax(0, '' @
     js ''1fr)); gap: var(--gap); }\<newline>'' @
     js ''  @media (max-width: 720px) { .grid { grid-template-columns: '' @
     js ''1fr; } }\<newline>'' @
     js ''  .card { background: #fff; border: 1px solid #eee; border-radius: '' @
     js ''var(--radius); overflow: hidden; box-shadow: var(--shadow); '' @
     js ''display: flex; flex-direction: column; transition: transform '' @
     js ''.12s ease, box-shadow .12s ease; }\<newline>'' @
     js ''  .card:hover { transform: translateY(-2px); box-shadow: 0 10px '' @
     js ''26px rgba(0,0,0,0.10); }\<newline>'' @
     js ''  .cover { position: relative; width: 100%; padding-top: 66.66%; '' @
     js ''overflow: hidden; background: #f2f2f2; }\<newline>'' @
     js ''  .cover img { position: absolute; inset: 0; width: 100%; height: '' @
     js ''100%; object-fit: cover; }\<newline>'' @
     js ''  .content { padding: 14px 14px 18px; display: flex; flex-direction: '' @
     js ''column; gap: 8px; }\<newline>'' @
     js ''  .title { font-weight: 650; font-size: 16px; line-height: 1.3; '' @
     js ''}\<newline>'' @
     js ''  .desc { font-size: 14px; color: #555; line-height: 1.4; white-space: '' @
     js ''nowrap; overflow: hidden; text-overflow: ellipsis; }\<newline>'' @
     js ''  .actions { margin-top: 6px; }\<newline>'' @
     js ''  .btn { display: inline-block; text-decoration: none; border: '' @
     js ''1px solid var(--blue); background: var(--blue); color: #fff; '' @
     js ''padding: 10px 14px; border-radius: 10px; font-size: 14px; font-weight: '' @
     js ''600; transition: background .12s ease, color .12s ease, border-color '' @
     js ''.12s ease; }\<newline>'' @
     js ''  .btn:hover { background: var(--blue-dark); border-color: var(--blue-dark); '' @
     js ''color: #fff; }''\<close>

definition html_head :: jsstring where
  \<open>html_head =
     js ''<!DOCTYPE html><html lang="en"><head><meta charset="utf-8"/><meta '' @
     js ''name="viewport" content="width=device-width, initial-scale=1"/><title>Free '' @
     js ''Digital Products</title><style>'' @
     css @
     js ''</style></head><body><div class="wrap"><h1>Free Digital Products</h1><div '' @
     js ''class="subtitle">Curated resources for creators, designers, '' @
     js ''and marketers. Download and use them in your next project.</div><hr/><div '' @
     js ''class="grid">''\<close>

definition html_tail :: jsstring where
  \<open>html_tail =
     js ''</div><div class="footer" style="margin-top:36px;font-size:13px;color:#666;">Images '' @
     js ''hosted on Cloudinary '' @
     [0x2022] @
     js '' Auto-built from Google Sheets.</div></div></body></html>''\<close>

definition card :: "gallery_item \<Rightarrow> jsstring" where
  \<open>card it =
     js ''\<newline>'' @
     js ''    <article class="card">\<newline>'' @
     js ''      <div class="cover"><img src="'' @
     esc (image_url it) @
     js ''" alt="'' @
     esc (title it) @
     js '' cover" /></div>\<newline>'' @
     js ''      <div class="content">\<newline>'' @
     js ''        <div class="title">'' @
     esc (title it) @
     js ''</div>\<newline>'' @
     js ''        <div class="desc">'' @
     esc (description it) @
     js ''</div>\<newline>'' @
     js ''        <div class="actions"><a class="btn" href="'' @
     esc (url it) @
     js ''" target="_blank" rel="noopener">Download for Free</a></div>\<newline>'' @
     js ''      </div>\<newline>'' @
     js ''    </article>\<newline>'' @
     js ''  ''\<close>

definition htmlTemplate :: "gallery_item list \<Rightarrow> jsstring" where
  "htmlTemplate items = html_head @ join [NEWLINE] (map card items) @ html_tail"

text \<open>What \<open>esc\<close> writes for one character, the four replacements taken together.\<close>

definition esc_char :: "jschar \<Rightarrow> jsstring" where
  "esc_char c =
     (if c = AMP then js ''&amp;''
      else if c = LT then js ''&lt;''
      else if c = GT then js ''&gt;''
      else if c = DQUOTE then js ''&quot;''
      else [c])"

text \<open>
  How a browser reads character data back: the four entities that \<open>esc\<close> writes are
  decoded, every other character stands for itself.
\<close>

fun unescape :: "jsstring \<Rightarrow> jsstring" where
  "unescape [] = []"
| "unescape (c # cs) =
     (if startsWith (c # cs) (js ''&amp;'') then AMP # unescape (drop 4 cs)
      else if startsWith (c # cs) (js ''&lt;'') then LT # unescape (drop 3 cs)
      else if startsWith (c # cs) (js ''&gt;'') then GT # unescape (drop 3 cs)
      else if startsWith (c # cs) (js ''&quot;'') then DQUOTE # unescape (drop 5 cs)
      else c # unescape cs)"

definition is_markup :: "jschar \<Rightarrow> bool" where
  "is_markup c \<longleftrightarrow> c = LT \<or> c = GT \<or> c = DQUOTE"

text \<open>
  How markup is told from character data: the runs of characters between the markup
  characters of a text, in order. A text with \<open>n\<close> markup characters has \<open>n + 1\<close> runs.
\<close>

fun runs :: "jsstring \<Rightarrow> jsstring list" where
  "runs [] = [[]]"
| "runs (c # cs) =
     (if is_markup c then [] # runs cs
      else (case runs cs of r # rs \<Rightarrow> (c # r) # rs | [] \<Rightarrow> [[c]]))"

text \<open>
  \<open>fs.writeFileSync(path, text, 'utf-8')\<close> stores the UTF-8 encoding of the text. A
  surrogate pair is the four bytes of its code point; a surrogate that is not part of a
  pair has no encoding and is written as \<open>U+FFFD\<close>. \<open>utf8_text\<close> is the text a reader
  decodes from the file. \<open>JSON.stringify\<close> writes an unpaired surrogate as the escape
  \<open>\udXXX\<close>, so the dump decodes to the value that was serialised.
\<close>

definition is_high_surrogate :: "jschar \<Rightarrow> bool" where
  "is_high_surrogate c \<longleftrightarrow> 0xD800 \<le> c \<and> c \<le> 0xDBFF"

definition is_low_surrogate :: "jschar \<Rightarrow> bool" where
  "is_low_surrogate c \<longleftrightarrow> 0xDC00 \<le> c \<and> c \<le> 0xDFFF"

definition REPLACEMENT :: jschar where "REPLACEMENT = 0xFFFD"

definition utf8_unit :: "jschar \<Rightarrow> jschar" where
  "utf8_unit c = (if is_high_surrogate c \<or> is_low_surrogate c then REPLACEMENT else c)"

fun utf8_text :: "jsstring \<Rightarrow> jsstring" where
  "utf8_text [] = []"
| "utf8_text [c] = [utf8_unit c]"
| "utf8_text (c # d # cs) =
     (if is_high_surrogate c \<and> is_low_surrogate d then c # d # utf8_text cs
      else utf8_unit c # utf8_text (d # cs))"


text \<open>
  \<^verbatim>\<open>
  function writeArtifacts(items) {
    fs.writeFileSync(path.join(DIST, 'data.json'), JSON.stringify(items, null, 2), 'utf-8');
    const header = 'Name,Description,Image URL,Download Link\n';
    const esc = s => '"' + String(s || '').replace(/"/g, '""') + '"';
    const body = items.map(p => [p.title, p.description, p.image, p.url].map(esc).join(','))
                      .join('\n');
    fs.writeFileSync(path.join(DIST, 'products.csv'), header + body, 'utf-8');
    const html = htmlTemplate(items);
    fs.writeFileSync(path.join(DIST, 'index.html'), html, 'utf-8');
  }
  \<close>
  \<open>JSON.stringify\<close> is the language's own serialiser; the dump is kept as the value it
  is given, an array of objects with four string members each. The two texts are kept
  as a reader of the files decodes them.
\<close>

datatype json = JString jsstring | JObject "(jsstring \<times> json) list" | JArray "json list"

datatype artifact = JsonText json | Text jsstring

type_synonym files = "(jsstring \<times> artifact) list"

definition item_json :: "gallery_item \<Rightarrow> json" where
  "item_json it =
     JObject [(js ''title'', JString (title it)), (js ''description'', JString (description it)),
              (js ''image'', JString (image_url it)), (js ''url'', JString (url it))]"

definition csv_esc :: "jsstring \<Rightarrow> jsstring" where
  "csv_esc s = DQUOTE # replace_all DQUOTE [DQUOTE, DQUOTE] s @ [DQUOTE]"

definition csv_row :: "gallery_item \<Rightarrow> jsstring" where
  "csv_row p = join [COMMA] (map csv_esc [title p, description p, image_url p, url p])"

definition csv_header :: jsstring where
  "csv_header = js ''Name,Description,Image URL,Download Link\<newline>''"

definition products_csv :: "gallery_item list \<Rightarrow> jsstring" where
  "products_csv items = csv_header @ join [NEWLINE] (map csv_row items)"

text \<open>
  \<open>fs.writeFileSync\<close> throws when the file cannot be written; the files written before
  stay.
\<close>

fun write_all :: "(jsstring \<Rightarrow> bool) \<Rightarrow> files \<Rightarrow> (error + unit) \<times> files" where
  "write_all ok [] = (Inr (), [])"
| "write_all ok ((name, content) # rest) =
     (if ok name then
        (case write_all ok rest of (r, written) \<Rightarrow> (r, (name, content) # written))
      else (Inl (WriteFailed name), []))"

definition writeArtifacts :: "(jsstring \<Rightarrow> bool) \<Rightarrow> gallery_item list \<Rightarrow> (error + unit) \<times> files" where
  "writeArtifacts ok items =
     write_all ok
       [(js ''data.json'', JsonText (JArray (map item_json items))),
        (js ''products.csv'', Text (utf8_text (products_csv items))),
        (js ''index.html'', Text (utf8_text (htmlTemplate items)))]"




















section \<open>Pipeline orchestrator: \<open>main\<close>\<close>

text \<open>
  What the outside world does while one link is processed, and during the whole run.
  \<open>sheet\<close> is the published sheet as the CSV reader returns it, \<open>None\<close> when the
  download or the reader throws. The loop runs over the result of \<open>parseLinks\<close>, in
  which every link occurs once, so the world of a link is the world of its iteration.
\<close>

record link_world =
  static_fetch :: "static_page option"
  browser_page :: page_script
  uploader :: upload_script

record world =
  sheet :: "row list option"
  launch_ok :: bool
  link_env :: "jsstring \<Rightarrow> link_world"
  browser_close_ok :: bool
  fs_write_ok :: "jsstring \<Rightarrow> bool"

text \<open>\<open>s.split(c)\<close> for a single character \<open>c\<close>; the array is never empty.\<close>

fun split_on :: "jschar \<Rightarrow> jsstring \<Rightarrow> jsstring list" where
  "split_on c [] = [[]]"
| "split_on c (x # xs) =
     (if x = c then [] # split_on c xs
      else (case split_on c xs of seg # segs \<Rightarrow> (x # seg) # segs | [] \<Rightarrow> [[x]]))"

text \<open>\<open>url.split('/').pop().replace(/[-_]/g, ' ')\<close>\<close>

definition url_title :: "jsstring \<Rightarrow> jsstring" where
  "url_title u =
     map (\<lambda>c. if c = 0x2D \<or> c = 0x5F then SPACE else c) (last (split_on SLASH u))"

definition placeholder :: "jsstring \<Rightarrow> jsstring" where
  "placeholder cloud =
     js ''https://res.cloudinary.com/'' @ cloud @
     js ''/image/upload/c_fill,w_1200,h_800,f_auto,q_auto/v1/https://placehold.co/1200x800/jpg''"

text \<open>
  \<^verbatim>\<open>
  let meta = await scrapeWithCheerio(url);
  if (!meta.image) {
    meta = await scrapeWithPuppeteer(browser, url);
  }
  \<close>
\<close>

definition extract_meta :: "link_world \<Rightarrow> jsstring \<Rightarrow> (error + extracted_meta) \<times> event list" where
  "extract_meta lw u =
     (let meta = scrapeWithCheerio (static_fetch lw) in
      if image_url meta = [] then
        (case scrapeWithPuppeteer (browser_page lw) of
           (r, evs) \<Rightarrow> (r, CallCheerio u # CallPuppeteer u # evs))
      else (Inr meta, [CallCheerio u]))"

text \<open>
  \<^verbatim>\<open>
  let img = await uploadToCloudinary(meta.image);
  if (!img) {
    img = `https://res.cloudinary.com/${CLOUDINARY_CLOUD}/image/upload/.../jpg`;
  }
  const title = meta.title || url.split('/').pop().replace(/[-_]/g, ' ');
  items.push({ title, description: meta.description, image: img, url });
  \<close>
\<close>

definition finish :: "jsstring \<Rightarrow> link_world \<Rightarrow> jsstring \<Rightarrow> extracted_meta \<Rightarrow> gallery_item \<times> event list" where
  "finish cloud lw u meta =
     (case uploadToCloudinary (uploader lw) (image_url meta) of
        (hosted, evs) \<Rightarrow>
          (\<lparr>title = (if title meta \<noteq> [] then title meta else url_title u),
            description = description meta,
            image_url = (if hosted = [] then placeholder cloud else hosted),
            url = u\<rparr>, evs))"

definition process_link :: "jsstring \<Rightarrow> link_world \<Rightarrow> jsstring \<Rightarrow> (error + gallery_item) \<times> event list" where
  "process_link cloud lw u =
     (case extract_meta lw u of
        (Inl e, evs) \<Rightarrow> (Inl e, evs)
      | (Inr meta, evs) \<Rightarrow>
          (case finish cloud lw u meta of (it, evs') \<Rightarrow> (Inr it, evs @ evs')))"

text \<open>The \<open>for\<close> loop over the links, \<open>items\<close> being the array pushed to.\<close>

fun process_links ::
  "jsstring \<Rightarrow> (jsstring \<Rightarrow> link_world) \<Rightarrow> jsstring list \<Rightarrow> gallery_item list \<Rightarrow>
   (error + gallery_item list) \<times> event list" where
  "process_links cloud env [] items = (Inr items, [])"
| "process_links cloud env (u # rest) items =
     (case process_link cloud (env u) u of
        (Inl e, evs) \<Rightarrow> (Inl e, evs)
      | (Inr it, evs) \<Rightarrow>
          (case process_links cloud env rest (items @ [it]) of
             (r, evs') \<Rightarrow> (r, evs @ evs')))"

text \<open>
  \<open>main\<close> from the link list on: the result is the item list handed to
  \<open>writeArtifacts\<close> when the run completes, with the events of the run and the files
  written.
\<close>

definition run ::
  "jsstring \<Rightarrow> world \<Rightarrow> jsstring list \<Rightarrow> (error + gallery_item list) \<times> event list \<times> files" where
  "run cloud w links =
     (if links = [] then (Inl NoLinksFound, [], [])
      else if \<not> launch_ok w then (Inl LaunchFailed, [Launch], [])
      else
        (case process_links cloud (link_env w) links [] of
           (Inl e, evs) \<Rightarrow> (Inl e, Launch # evs, [])
         | (Inr items, evs) \<Rightarrow>
             if \<not> browser_close_ok w
             then (Inl BrowserCloseFailed, Launch # evs @ [BrowserClose], [])
             else
               (case writeArtifacts (fs_write_ok w) items of
                  (Inl e, written) \<Rightarrow> (Inl e, Launch # evs @ [BrowserClose], written)
                | (Inr _, written) \<Rightarrow> (Inr items, Launch # evs @ [BrowserClose], written))))"

definition main :: "jsstring \<Rightarrow> world \<Rightarrow> (error + gallery_item list) \<times> event list \<times> files" where
  "main cloud w =
     (case sheet w of
        None \<Rightarrow> (Inl SheetFailed, [], [])
      | Some rows \<Rightarrow> run cloud w (parseLinks rows))"

section \<open>Example worlds\<close>

text \<open>
  A document in which the selectors find nothing, a browser in which every call
  succeeds on a page without content, and a hosting provider that is down or up.
\<close>

definition blank_page :: static_page where
  "blank_page =
     \<lparr>h1_first_text = [], meta_og_title = None, title_text = [], about_next_text = [],
      meta_description = None, meta_og_description = None, meta_og_image = None,
      link_image_src = None, img_attrs = []\<rparr>"

definition quiet_browser :: page_script where
  "quiet_browser =
     \<lparr>newPage_ok = True, setUserAgent_ok = True, goto_ok = True, waitForTimeout_ok = True,
      eval_h1 = None, eval_og_title = None, page_title = Some [], eval_description = None,
      eval_og_description = None, xpath_about = Some [], evaluate_ok = True,
      eval_og_image = None, eval_imgs = Some [], close_ok = True, close_again_ok = True\<rparr>"

definition provider_down :: upload_script where
  "provider_down =
     \<lparr>upload = (\<lambda>_. None), fetch_image_ok = (\<lambda>_. False), upload_stream = (\<lambda>_. None)\<rparr>"

definition provider_up :: upload_script where
  "provider_up =
     \<lparr>upload = (\<lambda>_. Some (js ''https://res.cloudinary.com/demo/image/upload/products/a.jpg'')),
      fetch_image_ok = (\<lambda>_. True), upload_stream = (\<lambda>_. None)\<rparr>"

text \<open>
  Two links: for the first the static extractor finds a heading and an \<open>og:image\<close> and
  the provider is up; for every other link the request fails, the rendered page holds
  nothing, and the provider is down.
\<close>

definition link_with_image :: link_world where
  "link_with_image =
     \<lparr>static_fetch = Some (blank_page\<lparr>h1_first_text := js '' Deck '',
                                         meta_og_image := Some (js ''//cdn.x.io/a.png'')\<rparr>),
      browser_page = quiet_browser, uploader = provider_up\<rparr>"

definition link_without_image :: link_world where
  "link_without_image =
     \<lparr>static_fetch = None, browser_page = quiet_browser, uploader = provider_down\<rparr>"

definition demo_a :: jsstring where "demo_a = js ''https://x.io/deck''"
definition demo_b :: jsstring where "demo_b = js ''https://x.io/new-templates/''"

definition demo_world :: world where
  "demo_world =
     \<lparr>sheet = Some [[js ''Link'' \<mapsto> demo_a], [js ''Link'' \<mapsto> demo_b]],
      launch_ok = True,
      link_env = (\<lambda>u. if u = demo_a then link_with_image else link_without_image),
      browser_close_ok = True,
      fs_write_ok = (\<lambda>_. True)\<rparr>"

definition item_a :: gallery_item where
  "item_a =
     \<lparr>title = js ''Deck'', description = DEFAULT_DESC,
      image_url = js ''https://res.cloudinary.com/demo/image/upload/products/a.jpg'',
      url = demo_a\<rparr>"

definition item_b :: "jsstring \<Rightarrow> gallery_item" where
  "item_b cloud =
     \<lparr>title = [], description = DEFAULT_DESC, image_url = placeholder cloud, url = demo_b\<rparr>"






section \<open>Properties of the string helpers\<close>

lemma length_collapse_ws: "length (collapse_ws s) \<le> length s"
proof (induction s rule: collapse_ws.induct)
  case 1
  show ?case by simp
next
  case (2 c cs)
  have "length (dropWhile is_space cs) \<le> length cs"
    by (rule length_dropWhile_le)
  with 2 show ?case by (auto simp: le_SucI)
qed

lemma length_trim: "length (trim s) \<le> length s"
proof -
  have "length (trim s) \<le> length (dropWhile is_space s)"
    unfolding trim_def using length_dropWhile_le [of is_space "rev (dropWhile is_space s)"]
    by simp
  also have "\<dots> \<le> length s" by (rule length_dropWhile_le)
  finally show ?thesis .
qed

lemma length_strip_trailing_punct: "length (strip_trailing_punct s) \<le> length s"
  unfolding strip_trailing_punct_def
  using length_dropWhile_le [of is_trailing_punct "rev s"] by simp

lemma collapse_ws_id:
  "list_all (\<lambda>c. is_space c = (c = SPACE)) s \<Longrightarrow> single_spaced s \<Longrightarrow> collapse_ws s = s"
proof (induction s rule: single_spaced.induct)
  case 1
  show ?case by simp
next
  case (2 c)
  then show ?case by simp
next
  case (3 c d cs)
  then show ?case by (cases "is_space d") auto
qed

lemma trim_id:
  assumes "s = [] \<or> (\<not> is_space (hd s) \<and> \<not> is_space (last s))"
  shows "trim s = s"
proof (cases "s = []")
  case True
  then show ?thesis by (simp add: trim_def)
next
  case False
  with assms have h: "\<not> is_space (hd s)" and l: "\<not> is_space (last s)" by auto
  from False h have "dropWhile is_space s = s" by (cases s) auto
  moreover from False l have "dropWhile is_space (rev s) = rev s"
    by (cases "rev s") (auto simp: last_rev [symmetric] hd_rev)
  ultimately show ?thesis by (simp add: trim_def)
qed

lemma normalised_fixed: "normalised s \<Longrightarrow> trim (collapse_ws s) = s"
  by (simp add: normalised_def collapse_ws_id trim_id)

lemma length_slice0_le: "length (slice0 s k) \<le> length s"
  by (simp add: slice0_def)

lemma length_slice0_bound: "int (length (slice0 s k)) \<le> max 0 k"
  by (simp add: slice0_def)

lemma length_shorten_cut:
  assumes "0 \<le> limit"
  shows "int (length (strip_trailing_punct
            (if lastIndexOf (slice0 clean (max 0 (limit - 1))) SPACE > 60
             then slice0 (slice0 clean (max 0 (limit - 1)))
                    (lastIndexOf (slice0 clean (max 0 (limit - 1))) SPACE)
             else slice0 clean (max 0 (limit - 1))) @ [ELLIPSIS])) \<le> limit + 1"
proof -
  let ?slice = "slice0 clean (max 0 (limit - 1))"
  let ?slice' = "if lastIndexOf ?slice SPACE > 60
                 then slice0 ?slice (lastIndexOf ?slice SPACE) else ?slice"
  have "length ?slice' \<le> length ?slice" by (simp add: length_slice0_le)
  moreover have "int (length ?slice) \<le> max 0 (limit - 1)"
    using length_slice0_bound [of clean "max 0 (limit - 1)"] by simp
  moreover have "length (strip_trailing_punct ?slice') \<le> length ?slice'"
    by (rule length_strip_trailing_punct)
  ultimately have "int (length (strip_trailing_punct ?slice')) \<le> max 0 (limit - 1)"
    by linarith
  with assms show ?thesis by simp
qed

lemma shorten_clean:
  assumes "int (length (trim (collapse_ws s))) \<le> n"
  shows "shorten (Some s) n = trim (collapse_ws s)"
proof (cases "s = []")
  case True
  then show ?thesis by (simp add: shorten_def trim_def)
next
  case False
  with assms show ?thesis by (simp add: shorten_def Let_def)
qed

lemma length_clean: "length (trim (collapse_ws s)) \<le> length s"
  using length_trim [of "collapse_ws s"] length_collapse_ws [of s] by linarith

lemma length_shorten:
  assumes "0 \<le> n"
  shows "int (length (shorten t n)) \<le> n + 1"
proof (cases t)
  case None
  with assms show ?thesis by (simp add: shorten_def)
next
  case (Some s)
  show ?thesis
  proof (cases "s = [] \<or> int (length (trim (collapse_ws s))) \<le> n")
    case True
    with Some assms show ?thesis by (auto simp: shorten_def Let_def)
  next
    case False
    with Some have "shorten t n =
        strip_trailing_punct
          (if lastIndexOf (slice0 (trim (collapse_ws s)) (max 0 (n - 1))) SPACE > 60
           then slice0 (slice0 (trim (collapse_ws s)) (max 0 (n - 1)))
                  (lastIndexOf (slice0 (trim (collapse_ws s)) (max 0 (n - 1))) SPACE)
           else slice0 (trim (collapse_ws s)) (max 0 (n - 1))) @ [ELLIPSIS]"
      by (simp add: shorten_def Let_def)
    with length_shorten_cut [OF assms, of "trim (collapse_ws s)"] show ?thesis by simp
  qed
qed

lemma shorten_nonblank:
  assumes "trim (collapse_ws s) \<noteq> []"
  shows "shorten (Some s) n \<noteq> []"
proof -
  from assms have "s \<noteq> []" by (auto simp: trim_def)
  with assms show ?thesis by (simp add: shorten_def Let_def)
qed

lemma normalised_default_desc: "normalised DEFAULT_DESC"
  by (simp add: normalised_def DEFAULT_DESC_def js_def is_space_def SPACE_def)

lemma shorten_default_desc: "shorten (Some DEFAULT_DESC) DEFAULT_LIMIT = DEFAULT_DESC"
proof -
  have "int (length (trim (collapse_ws DEFAULT_DESC))) \<le> DEFAULT_LIMIT"
    unfolding normalised_fixed [OF normalised_default_desc]
    by (simp add: DEFAULT_DESC_def DEFAULT_LIMIT_def js_def)
  from shorten_clean [OF this] show ?thesis
    by (simp only: normalised_fixed [OF normalised_default_desc])
qed


section \<open>Properties of the orchestrator\<close>

lemma split_on_nonempty: "split_on c s \<noteq> []"
  by (induction s) (auto split: list.splits)

lemma length_split_on: "length (split_on c s) = Suc (length (filter (\<lambda>x. x = c) s))"
  by (induction s) (auto split: list.splits)

lemma last_split_on:
  assumes "s \<noteq> []" and "last s = c"
  shows "last (split_on c s) = []"
  using assms
proof (induction s)
  case Nil
  then show ?case by simp
next
  case (Cons x xs)
  show ?case
  proof (cases "xs = []")
    case True
    with Cons.prems show ?thesis by simp
  next
    case False
    with Cons.prems have l: "last xs = c" by simp
    with False have "c \<in> set xs" using last_in_set by blast
    then have "filter (\<lambda>x. x = c) xs \<noteq> []" by (auto simp: filter_empty_conv)
    then have "2 \<le> length (split_on c xs)"
      unfolding length_split_on by (cases "filter (\<lambda>x. x = c) xs") auto
    then obtain seg seg' segs where segs: "split_on c xs = seg # seg' # segs"
      by (cases "split_on c xs"; cases "tl (split_on c xs)") auto
    from Cons.IH [OF False l] segs show ?thesis by simp
  qed
qed

lemma url_title_trailing_slash:
  assumes "u \<noteq> []" and "last u = SLASH"
  shows "url_title u = []"
  using last_split_on [OF assms] by (simp add: url_title_def)

lemma fix_protocol_nonempty: "i \<noteq> [] \<Longrightarrow> fix_protocol i \<noteq> []"
  by (simp add: fix_protocol_def)

lemma placeholder_nonempty: "placeholder cloud \<noteq> []"
  by (simp add: placeholder_def js_def)

lemma scrapeWithPuppeteer_returns:
  assumes "newPage_ok p" and "setUserAgent_ok p" and "close_ok p"
  shows "scrapeWithPuppeteer p =
    (Inr (case puppeteer_extract p of None \<Rightarrow> FALLBACK_META | Some m \<Rightarrow> m),
     [NewPage, ClosePage True])"
  using assms by (simp add: scrapeWithPuppeteer_def split: option.splits)

lemma scrapeWithPuppeteer_closed:
  assumes "fst (scrapeWithPuppeteer p) = Inr m"
  shows "\<exists>evs. snd (scrapeWithPuppeteer p) = NewPage # evs @ [ClosePage True]"
proof -
  from assms have
    "snd (scrapeWithPuppeteer p) = NewPage # [] @ [ClosePage True] \<or>
     snd (scrapeWithPuppeteer p) = NewPage # [ClosePage False] @ [ClosePage True]"
    by (auto simp: scrapeWithPuppeteer_def split: option.splits if_splits)
  then show ?thesis by blast
qed

lemma extract_meta_cases:
  "extract_meta lw u =
     (if image_url (scrapeWithCheerio (static_fetch lw)) = []
      then (fst (scrapeWithPuppeteer (browser_page lw)),
            CallCheerio u # CallPuppeteer u # snd (scrapeWithPuppeteer (browser_page lw)))
      else (Inr (scrapeWithCheerio (static_fetch lw)), [CallCheerio u]))"
  by (simp add: extract_meta_def Let_def split: prod.splits)

lemma puppeteer_events:
  "set (snd (scrapeWithPuppeteer p)) \<subseteq> {NewPage, ClosePage True, ClosePage False}"
  by (auto simp: scrapeWithPuppeteer_def split: option.splits if_splits)

lemma upload_events:
  "set (snd (uploadToCloudinary c i)) \<subseteq> {Upload i, FetchImage i, UploadStream i}"
  by (auto simp: uploadToCloudinary_def split: option.splits if_splits)

lemma finish_item:
  "fst (finish cloud lw u meta) =
     \<lparr>title = (if title meta \<noteq> [] then title meta else url_title u),
      description = description meta,
      image_url = (if fst (uploadToCloudinary (uploader lw) (image_url meta)) = []
                   then placeholder cloud
                   else fst (uploadToCloudinary (uploader lw) (image_url meta))),
      url = u\<rparr>"
  by (simp add: finish_def split: prod.splits)

lemma finish_events:
  "snd (finish cloud lw u meta) = snd (uploadToCloudinary (uploader lw) (image_url meta))"
  by (simp add: finish_def split: prod.splits)

lemma process_link_cases:
  "process_link cloud lw u =
     (case fst (extract_meta lw u) of
        Inl e \<Rightarrow> (Inl e, snd (extract_meta lw u))
      | Inr meta \<Rightarrow>
          (Inr (fst (finish cloud lw u meta)),
           snd (extract_meta lw u) @ snd (finish cloud lw u meta)))"
  by (simp add: process_link_def split: prod.splits sum.splits)

lemma process_link_calls:
  "(CallPuppeteer v \<in> set (snd (process_link cloud lw u)) \<longleftrightarrow>
      v = u \<and> image_url (scrapeWithCheerio (static_fetch lw)) = []) \<and>
   (CallCheerio v \<in> set (snd (process_link cloud lw u)) \<longleftrightarrow> v = u)"
proof -
  have p: "CallPuppeteer v \<notin> set (snd (scrapeWithPuppeteer (browser_page lw)))"
    "CallCheerio v \<notin> set (snd (scrapeWithPuppeteer (browser_page lw)))"
    using puppeteer_events [of "browser_page lw"] by auto
  have c: "CallPuppeteer v \<notin> set (snd (finish cloud lw u meta))"
    "CallCheerio v \<notin> set (snd (finish cloud lw u meta))" for meta
    using upload_events [of "uploader lw" "image_url meta"] by (auto simp: finish_events)
  show ?thesis
    using p c by (auto simp: process_link_cases extract_meta_cases split: sum.splits)
qed

lemma process_links_Cons:
  "process_links cloud env (u # rest) acc =
     (case fst (process_link cloud (env u) u) of
        Inl e \<Rightarrow> (Inl e, snd (process_link cloud (env u) u))
      | Inr it \<Rightarrow>
          (fst (process_links cloud env rest (acc @ [it])),
           snd (process_link cloud (env u) u) @ snd (process_links cloud env rest (acc @ [it]))))"
  by (simp split: prod.splits sum.splits)

lemma process_links_calls:
  "CallPuppeteer v \<in> set (snd (process_links cloud env links acc)) \<longleftrightarrow>
   CallCheerio v \<in> set (snd (process_links cloud env links acc)) \<and>
   image_url (scrapeWithCheerio (static_fetch (env v))) = []"
proof (induction links arbitrary: acc)
  case Nil
  show ?case by simp
next
  case (Cons u rest)
  show ?case
  proof (cases "fst (process_link cloud (env u) u)")
    case (Inl e)
    then show ?thesis
      using process_link_calls [of v cloud "env u" u]
      by (auto simp only: process_links_Cons sum.case snd_conv)
  next
    case (Inr it)
    then have "snd (process_links cloud env (u # rest) acc) =
        snd (process_link cloud (env u) u) @ snd (process_links cloud env rest (acc @ [it]))"
      by (simp only: process_links_Cons sum.case snd_conv)
    then show ?thesis
      using process_link_calls [of v cloud "env u" u] Cons [of "acc @ [it]"]
      by auto
  qed
qed

lemma process_links_items:
  "process_links cloud env links acc = (Inr items, evs) \<Longrightarrow>
   \<exists>its. items = acc @ its \<and>
     list_all2 (\<lambda>u it. fst (process_link cloud (env u) u) = Inr it) links its"
proof (induction links arbitrary: acc evs)
  case Nil
  then show ?case by simp
next
  case (Cons u rest)
  from Cons.prems obtain it where it: "fst (process_link cloud (env u) u) = Inr it"
    by (cases "fst (process_link cloud (env u) u)") (auto simp only: process_links_Cons sum.case)
  with Cons.prems have "fst (process_links cloud env rest (acc @ [it])) = Inr items"
    by (simp only: process_links_Cons sum.case prod.inject)
  then obtain evs' where "process_links cloud env rest (acc @ [it]) = (Inr items, evs')"
    by (cases "process_links cloud env rest (acc @ [it])") auto
  from Cons.IH [OF this] obtain its where
    "items = (acc @ [it]) @ its"
    "list_all2 (\<lambda>u it. fst (process_link cloud (env u) u) = Inr it) rest its"
    by blast
  with it have "items = acc @ (it # its) \<and>
      list_all2 (\<lambda>u it. fst (process_link cloud (env u) u) = Inr it) (u # rest) (it # its)"
    by simp
  then show ?case by blast
qed


lemma process_link_item:
  assumes "fst (process_link cloud lw u) = Inr it"
  shows "\<exists>meta. fst (extract_meta lw u) = Inr meta \<and> it = fst (finish cloud lw u meta)"
  using assms by (auto simp: process_link_cases split: sum.splits)

lemma process_link_returns:
  assumes "image_url (scrapeWithCheerio (static_fetch lw)) \<noteq> [] \<or>
    (newPage_ok (browser_page lw) \<and> setUserAgent_ok (browser_page lw) \<and> close_ok (browser_page lw))"
  shows "\<exists>it. fst (process_link cloud lw u) = Inr it"
proof (cases "image_url (scrapeWithCheerio (static_fetch lw)) = []")
  case True
  with assms have "fst (extract_meta lw u) =
      Inr (case puppeteer_extract (browser_page lw) of None \<Rightarrow> FALLBACK_META | Some m \<Rightarrow> m)"
    by (simp add: extract_meta_cases scrapeWithPuppeteer_returns)
  then show ?thesis by (simp add: process_link_cases)
next
  case False
  then show ?thesis by (simp add: process_link_cases extract_meta_cases)
qed

lemma write_all_ok:
  "\<forall>name. ok name \<Longrightarrow> write_all ok fs = (Inr (), fs)"
  by (induction fs) auto


lemma run_completes:
  "run cloud w links = (Inr items, tr, fs) \<longleftrightarrow>
     links \<noteq> [] \<and> launch_ok w \<and> browser_close_ok w \<and>
     process_links cloud (link_env w) links [] =
       (Inr items, snd (process_links cloud (link_env w) links [])) \<and>
     tr = Launch # snd (process_links cloud (link_env w) links []) @ [BrowserClose] \<and>
     fst (writeArtifacts (fs_write_ok w) items) = Inr () \<and>
     fs = snd (writeArtifacts (fs_write_ok w) items)"
  by (auto simp: run_def split: prod.splits sum.splits)

lemma run_items:
  assumes "run cloud w links = (Inr items, tr, fs)"
  shows "list_all2 (\<lambda>u it. fst (process_link cloud (link_env w u) u) = Inr it) links items"
proof -
  from assms have "process_links cloud (link_env w) links [] =
      (Inr items, snd (process_links cloud (link_env w) links []))"
    by (simp add: run_completes)
  from process_links_items [OF this] show ?thesis by simp
qed




lemma static_with_image:
  "scrapeWithCheerio (static_fetch link_with_image) =
     \<lparr>title = js ''Deck'', description = DEFAULT_DESC, image_url = js ''https://cdn.x.io/a.png''\<rparr>"
  by (simp add: link_with_image_def blank_page_def scrapeWithCheerio_def js_or_def truthy_def
      or_empty_def or_default_def shorten_default_desc fix_protocol_def startsWith_def
      trim_def is_space_def js_def)

lemma process_link_a:
  "process_link cloud link_with_image demo_a =
     (Inr item_a, [CallCheerio demo_a, Upload (js ''https://cdn.x.io/a.png'')])"
proof -
  have "js ''Deck'' \<noteq> []" "js ''https://cdn.x.io/a.png'' \<noteq> []"
    "js ''https://res.cloudinary.com/demo/image/upload/products/a.jpg'' \<noteq> []"
    by (simp_all add: js_def)
  then show ?thesis
    by (simp add: process_link_cases extract_meta_cases static_with_image finish_item
        finish_events uploadToCloudinary_def item_a_def)
      (simp add: link_with_image_def provider_up_def)
qed

lemma rendered_quiet:
  "scrapeWithPuppeteer quiet_browser = (Inr FALLBACK_META, [NewPage, ClosePage True])"
proof -
  have "puppeteer_extract quiet_browser = Some FALLBACK_META"
    by (simp add: puppeteer_extract_def rendered_title_def rendered_description_def
        rendered_image_def rendered_img_def quiet_browser_def catch_empty_def or_default_def
        or_empty_def js_or_def truthy_def fix_protocol_def shorten_default_desc
        FALLBACK_META_def)
  then show ?thesis by (simp add: scrapeWithPuppeteer_def quiet_browser_def)
qed

lemma process_link_b:
  assumes "u \<noteq> []" and "last u = SLASH"
  shows "process_link cloud link_without_image u =
     (Inr \<lparr>title = [], description = DEFAULT_DESC, image_url = placeholder cloud, url = u\<rparr>,
      [CallCheerio u, CallPuppeteer u, NewPage, ClosePage True])"
proof -
  have "static_fetch link_without_image = None" "browser_page link_without_image = quiet_browser"
    by (simp_all add: link_without_image_def)
  then show ?thesis
    by (simp add: process_link_cases extract_meta_cases scrapeWithCheerio_def rendered_quiet
        finish_item finish_events uploadToCloudinary_def FALLBACK_META_def
        url_title_trailing_slash [OF assms])
qed

lemma demo_b_slash: "demo_b \<noteq> [] \<and> last demo_b = SLASH \<and> demo_b \<noteq> demo_a"
  by (simp add: demo_b_def demo_a_def js_def SLASH_def)

lemma demo_loop:
  "process_links cloud (link_env demo_world) [demo_a, demo_b] [] =
     (Inr [item_a, item_b cloud],
      [CallCheerio demo_a, Upload (js ''https://cdn.x.io/a.png''),
       CallCheerio demo_b, CallPuppeteer demo_b, NewPage, ClosePage True])"
proof -
  have env: "link_env demo_world demo_a = link_with_image"
    "link_env demo_world demo_b = link_without_image"
    using demo_b_slash by (simp_all add: demo_world_def)
  from demo_b_slash show ?thesis
    by (simp add: env process_link_a process_link_b item_b_def)
qed

lemma demo_run:
  "run cloud demo_world [demo_a, demo_b] =
     (Inr [item_a, item_b cloud],
      [Launch, CallCheerio demo_a, Upload (js ''https://cdn.x.io/a.png''),
       CallCheerio demo_b, CallPuppeteer demo_b, NewPage, ClosePage True, BrowserClose],
      [(js ''data.json'', JsonText (JArray (map item_json [item_a, item_b cloud]))),
       (js ''products.csv'', Text (utf8_text (products_csv [item_a, item_b cloud]))),
       (js ''index.html'', Text (utf8_text (htmlTemplate [item_a, item_b cloud])))])"
proof -
  have w: "launch_ok demo_world" "browser_close_ok demo_world"
    "\<forall>name. fs_write_ok demo_world name"
    by (simp_all add: demo_world_def)
  then have "writeArtifacts (fs_write_ok demo_world) [item_a, item_b cloud] =
      (Inr (),
       [(js ''data.json'', JsonText (JArray (map item_json [item_a, item_b cloud]))),
        (js ''products.csv'', Text (utf8_text (products_csv [item_a, item_b cloud]))),
        (js ''index.html'', Text (utf8_text (htmlTemplate [item_a, item_b cloud])))])"
    unfolding writeArtifacts_def using write_all_ok [of "fs_write_ok demo_world"] by simp
  with w show ?thesis by (simp add: run_def demo_loop del: process_links.simps)
qed

lemma list_all2_right:
  "list_all2 P xs ys \<Longrightarrow> y \<in> set ys \<Longrightarrow> \<exists>x\<in>set xs. P x y"
  by (induction xs ys rule: list_all2_induct) auto

lemma list_all2_left:
  "list_all2 P xs ys \<Longrightarrow> x \<in> set xs \<Longrightarrow> \<exists>y\<in>set ys. P x y"
  by (induction xs ys rule: list_all2_induct) auto

lemma run_calls:
  "(CallPuppeteer v \<in> set (fst (snd (run cloud w links))) \<longleftrightarrow>
      links \<noteq> [] \<and> launch_ok w \<and>
      CallPuppeteer v \<in> set (snd (process_links cloud (link_env w) links []))) \<and>
   (CallCheerio v \<in> set (fst (snd (run cloud w links))) \<longleftrightarrow>
      links \<noteq> [] \<and> launch_ok w \<and>
      CallCheerio v \<in> set (snd (process_links cloud (link_env w) links [])))"
  by (auto simp: run_def split: prod.splits sum.splits)

lemma static_og_image:
  assumes "meta_og_image pg = Some i" and "i \<noteq> []"
  shows "image_url (scrapeWithCheerio (Some pg)) \<noteq> []"
  using assms fix_protocol_nonempty [of i]
  by (simp add: scrapeWithCheerio_def js_or_def truthy_def or_empty_def Let_def)







































section \<open>Claims about \<open>shorten\<close>\<close>

text \<open>
  Claim C3, as amended. For every limit \<open>n \<ge> 0\<close> and every input, \<open>shorten\<close> returns a
  string of at most \<open>n + 1\<close> code units, the one beyond \<open>n\<close> being the ellipsis. An
  input of length at most \<open>n\<close> is returned with its whitespace runs collapsed to single
  spaces and its ends trimmed, which is the input itself when it is already in that
  form. An absent or empty input gives the empty string.
\<close>

theorem shorten_bounded:
  "shorten None n = [] \<and> shorten (Some []) n = [] \<and>
   (0 \<le> n \<longrightarrow> int (length (shorten t n)) \<le> n + 1) \<and>
   (int (length s) \<le> n \<longrightarrow> shorten (Some s) n = trim (collapse_ws s)) \<and>
   (int (length s) \<le> n \<and> normalised s \<longrightarrow> shorten (Some s) n = s)"
proof -
  have clean: "shorten (Some s) n = trim (collapse_ws s)" if "int (length s) \<le> n"
  proof (rule shorten_clean)
    from that length_clean [of s] show "int (length (trim (collapse_ws s))) \<le> n" by linarith
  qed
  have "shorten None n = []" "shorten (Some []) n = []"
    by (simp_all add: shorten_def)
  moreover have "0 \<le> n \<longrightarrow> int (length (shorten t n)) \<le> n + 1"
    using length_shorten by blast
  moreover have "int (length s) \<le> n \<and> normalised s \<longrightarrow> shorten (Some s) n = s"
    using clean normalised_fixed by auto
  ultimately show ?thesis using clean by blast
qed

theorem shorten_bounded_witness:
  "(0::int) \<le> 5 \<and> int (length (js ''a b'')) \<le> 5 \<and> normalised (js ''a b'') \<and>
   int (length (shorten (Some (js ''one,   two'')) 5)) \<le> 5 + 1 \<and>
   shorten (Some (js ''a b'')) 5 = trim (collapse_ws (js ''a b'')) \<and>
   shorten (Some (js ''a b'')) 5 = js ''a b''"
proof -
  have n: "(0::int) \<le> 5" by simp
  have l: "int (length (js ''a b'')) \<le> 5" by (simp add: js_def)
  have f: "normalised (js ''a b'')"
    by (simp add: normalised_def js_def is_space_def SPACE_def)
  from shorten_bounded [of 5 "Some (js ''one,   two'')" "js ''a b''"] n l f
  show ?thesis by blast
qed

text \<open>
  The claim as it stands fails twice: an input within the limit is not returned
  unchanged when it has leading whitespace, and under a negative limit the result is
  longer than \<open>n + 1\<close>.
\<close>

theorem shorten_unchanged_counterexample:
  "int (length (js '' a'')) \<le> 5 \<and> shorten (Some (js '' a'')) 5 \<noteq> js '' a'' \<and>
   \<not> int (length (shorten (Some (js ''a'')) (- 1))) \<le> (- 1) + 1"
  by (simp add: shorten_def js_def trim_def is_space_def slice0_def lastIndexOf_def
      strip_trailing_punct_def)

section \<open>Claims about link collection\<close>

lemma filter_first_seen: "first_seen (filter P xs) = filter P (first_seen xs)"
proof (induction xs)
  case Nil
  show ?case by simp
next
  case (Cons a xs)
  show ?case
  proof (cases "P a")
    case True
    have "filter (\<lambda>y. y \<noteq> a) (filter P (first_seen xs)) =
        filter P (filter (\<lambda>y. y \<noteq> a) (first_seen xs))"
      by (simp add: conj_commute)
    with True Cons show ?thesis by simp
  next
    case False
    then have "filter P (filter (\<lambda>y. y \<noteq> a) (first_seen xs)) = filter P (first_seen xs)"
      by (auto intro: filter_cong)
    with False Cons show ?thesis by simp
  qed
qed

lemma foldl_set_add:
  "foldl set_add acc xs = acc @ first_seen (filter (\<lambda>x. x \<notin> set acc) xs)"
proof (induction xs arbitrary: acc)
  case Nil
  show ?case by simp
next
  case (Cons a xs)
  show ?case
  proof (cases "a \<in> set acc")
    case True
    with Cons [of acc] show ?thesis by (simp add: set_add_def)
  next
    case False
    have "first_seen (filter (\<lambda>x. x \<notin> set (acc @ [a])) xs) =
        filter (\<lambda>y. y \<noteq> a) (first_seen (filter (\<lambda>x. x \<notin> set acc) xs))"
      unfolding filter_first_seen by (simp add: conj_commute)
    with False Cons [of "acc @ [a]"] show ?thesis by (simp add: set_add_def)
  qed
qed

lemma array_from_set_first_seen: "array_from_set xs = first_seen xs"
  by (simp add: array_from_set_def foldl_set_add)

lemma set_first_seen: "set (first_seen xs) = set xs"
  by (induction xs) auto

lemma distinct_first_seen: "distinct (first_seen xs)"
  by (induction xs) (auto simp: set_first_seen)

lemma link_cell_columns:
  assumes "r (js ''Link'') = r' (js ''Link'')" and "r (js ''link'') = r' (js ''link'')"
    and "r (js ''URL'') = r' (js ''URL'')" and "r (js ''url'') = r' (js ''url'')"
  shows "link_cell r = link_cell r'"
  using assms by (simp add: link_cell_def)

lemma not_truthy: "a \<in> {None, Some []} \<Longrightarrow> \<not> truthy a"
  by (auto simp: truthy_def)

lemma truthy_Some: "v \<noteq> [] \<Longrightarrow> truthy (Some v)"
  by (simp add: truthy_def)

lemma or_empty_Some: "or_empty (Some v) = v"
  by (simp add: or_empty_def js_or_def truthy_def)

lemma or_empty_falsy: "a \<in> {None, Some []} \<Longrightarrow> or_empty a = []"
  by (auto simp: or_empty_def js_or_def truthy_def)

text \<open>
  Claim C5, as amended. The link column is looked up under the four names \<open>Link\<close>,
  \<open>link\<close>, \<open>URL\<close> and \<open>url\<close>, in this order, and the first of them that has a
  non-empty value gives the cell; when none has, the cell is empty. No other column
  has any effect. Each value is trimmed, empty ones are dropped, and duplicates are
  removed by exact match keeping the first occurrence and its place: the result has no
  duplicates, holds exactly the non-empty cells, and links \<open>[A, A, B]\<close> give
  \<open>[A, B]\<close>.
\<close>

theorem parseLinks_first_seen:
  "parseLinks rows = first_seen (filter (\<lambda>l. l \<noteq> []) (map link_cell rows)) \<and>
   distinct (parseLinks rows) \<and>
   set (parseLinks rows) = set (map link_cell rows) - {[]} \<and>
   (r (js ''Link'') = r' (js ''Link'') \<and> r (js ''link'') = r' (js ''link'') \<and>
    r (js ''URL'') = r' (js ''URL'') \<and> r (js ''url'') = r' (js ''url'')
      \<longrightarrow> link_cell r = link_cell r') \<and>
   (r (js ''Link'') = Some v \<and> v \<noteq> [] \<longrightarrow> link_cell r = trim v) \<and>
   (r (js ''Link'') \<in> {None, Some []} \<and> r (js ''link'') = Some v \<and> v \<noteq> []
      \<longrightarrow> link_cell r = trim v) \<and>
   (r (js ''Link'') \<in> {None, Some []} \<and> r (js ''link'') \<in> {None, Some []} \<and> r (js ''URL'') = Some v \<and> v \<noteq> []
      \<longrightarrow> link_cell r = trim v) \<and>
   (r (js ''Link'') \<in> {None, Some []} \<and> r (js ''link'') \<in> {None, Some []} \<and> r (js ''URL'') \<in> {None, Some []} \<and>
    r (js ''url'') = Some v \<and> v \<noteq> []
      \<longrightarrow> link_cell r = trim v) \<and>
   (r (js ''Link'') \<in> {None, Some []} \<and> r (js ''link'') \<in> {None, Some []} \<and> r (js ''URL'') \<in> {None, Some []} \<and>
    r (js ''url'') \<in> {None, Some []}
      \<longrightarrow> link_cell r = []) \<and>
   (map link_cell rows = [A, A, B] \<and> A \<noteq> [] \<and> B \<noteq> [] \<and> A \<noteq> B
      \<longrightarrow> parseLinks rows = [A, B])"
proof -
  have eq: "parseLinks rows = first_seen (filter (\<lambda>l. l \<noteq> []) (map link_cell rows))"
    by (simp add: parseLinks_def array_from_set_first_seen)
  have d: "distinct (parseLinks rows)"
    unfolding eq by (rule distinct_first_seen)
  have s: "set (parseLinks rows) = set (map link_cell rows) - {[]}"
    unfolding eq set_first_seen by auto
  have c: "r (js ''Link'') = r' (js ''Link'') \<and> r (js ''link'') = r' (js ''link'') \<and>
      r (js ''URL'') = r' (js ''URL'') \<and> r (js ''url'') = r' (js ''url'')
      \<longrightarrow> link_cell r = link_cell r'"
    using link_cell_columns by blast
  have v1: "r (js ''Link'') = Some v \<and> v \<noteq> [] \<longrightarrow> link_cell r = trim v"
    by (simp add: link_cell_def js_or_def not_truthy truthy_Some or_empty_Some)
  have v2: "r (js ''Link'') \<in> {None, Some []} \<and> r (js ''link'') = Some v \<and> v \<noteq> []
      \<longrightarrow> link_cell r = trim v"
    by (simp add: link_cell_def js_or_def not_truthy truthy_Some or_empty_Some)
  have v3: "r (js ''Link'') \<in> {None, Some []} \<and> r (js ''link'') \<in> {None, Some []} \<and> r (js ''URL'') = Some v \<and> v \<noteq> []
      \<longrightarrow> link_cell r = trim v"
    by (simp add: link_cell_def js_or_def not_truthy truthy_Some or_empty_Some)
  have v4: "r (js ''Link'') \<in> {None, Some []} \<and> r (js ''link'') \<in> {None, Some []} \<and> r (js ''URL'') \<in> {None, Some []} \<and>
      r (js ''url'') = Some v \<and> v \<noteq> []
      \<longrightarrow> link_cell r = trim v"
    by (simp add: link_cell_def js_or_def not_truthy truthy_Some or_empty_Some)
  have v5: "r (js ''Link'') \<in> {None, Some []} \<and> r (js ''link'') \<in> {None, Some []} \<and> r (js ''URL'') \<in> {None, Some []} \<and>
      r (js ''url'') \<in> {None, Some []}
      \<longrightarrow> link_cell r = []"
    by (simp add: link_cell_def js_or_def not_truthy or_empty_falsy trim_def del: insert_iff)
  have ex: "map link_cell rows = [A, A, B] \<and> A \<noteq> [] \<and> B \<noteq> [] \<and> A \<noteq> B
      \<longrightarrow> parseLinks rows = [A, B]"
    unfolding eq by auto
  show ?thesis by (intro conjI; fact)
qed

theorem parseLinks_first_seen_witness:
  "parseLinks [[js ''Link'' \<mapsto> js '' A''], [js ''URL'' \<mapsto> js ''A ''], [js ''link'' \<mapsto> js ''B'']] =
     [js ''A'', js ''B''] \<and>
   link_cell [js ''Link'' \<mapsto> js '' A''] = trim (js '' A'') \<and>
   link_cell [js ''Link'' \<mapsto> [], js ''link'' \<mapsto> js ''B''] = trim (js ''B'') \<and>
   link_cell [js ''URL'' \<mapsto> js ''A ''] = trim (js ''A '') \<and>
   link_cell [js ''url'' \<mapsto> js ''C'', js ''Name'' \<mapsto> js ''n''] = trim (js ''C'') \<and>
   link_cell [js ''Name'' \<mapsto> js ''n''] = [] \<and>
   link_cell [js ''Link'' \<mapsto> js '' A'', js ''Name'' \<mapsto> js ''n''] = link_cell [js ''Link'' \<mapsto> js '' A'']"
proof -
  let ?r1 = "[js ''Link'' \<mapsto> js '' A'']" and ?r2 = "[js ''URL'' \<mapsto> js ''A '']"
    and ?r3 = "[js ''link'' \<mapsto> js ''B'']"
  have cells: "map link_cell [?r1, ?r2, ?r3] = [js ''A'', js ''A'', js ''B'']"
    by (simp add: link_cell_def js_or_def truthy_def or_empty_def trim_def is_space_def js_def)
  have ne: "js ''A'' \<noteq> [] \<and> js ''B'' \<noteq> [] \<and> js ''A'' \<noteq> js ''B''"
    by (simp add: js_def)
  have h1: "?r1 (js ''Link'') = Some (js '' A'') \<and> js '' A'' \<noteq> []"
    by (simp add: js_def)
  have h2: "?r2 (js ''Link'') \<in> {None, Some []} \<and> ?r2 (js ''link'') \<in> {None, Some []} \<and>
      ?r2 (js ''URL'') = Some (js ''A '') \<and> js ''A '' \<noteq> []"
    by (simp add: js_def)
  let ?r4 = "[js ''Link'' \<mapsto> js '' A'', js ''Name'' \<mapsto> js ''n'']"
  have h3: "?r4 (js ''Link'') = ?r1 (js ''Link'') \<and> ?r4 (js ''link'') = ?r1 (js ''link'') \<and>
      ?r4 (js ''URL'') = ?r1 (js ''URL'') \<and> ?r4 (js ''url'') = ?r1 (js ''url'')"
    by (simp add: js_def)
  let ?r5 = "[js ''Link'' \<mapsto> [], js ''link'' \<mapsto> js ''B'']"
  have h5: "?r5 (js ''Link'') \<in> {None, Some []} \<and> ?r5 (js ''link'') = Some (js ''B'') \<and> js ''B'' \<noteq> []"
    by (simp add: js_def)
  let ?r6 = "[js ''url'' \<mapsto> js ''C'', js ''Name'' \<mapsto> js ''n'']"
  have h6: "?r6 (js ''Link'') \<in> {None, Some []} \<and> ?r6 (js ''link'') \<in> {None, Some []} \<and>
      ?r6 (js ''URL'') \<in> {None, Some []} \<and> ?r6 (js ''url'') = Some (js ''C'') \<and> js ''C'' \<noteq> []"
    by (simp add: js_def)
  let ?r7 = "[js ''Name'' \<mapsto> js ''n'']"
  have h7: "?r7 (js ''Link'') \<in> {None, Some []} \<and> ?r7 (js ''link'') \<in> {None, Some []} \<and>
      ?r7 (js ''URL'') \<in> {None, Some []} \<and> ?r7 (js ''url'') \<in> {None, Some []}"
    by (simp add: js_def)
  from parseLinks_first_seen
    [where rows = "[?r1, ?r2, ?r3]" and r = ?r1 and r' = ?r1 and v = "js '' A''" and A = "js ''A''" and B = "js ''B''"]
    cells ne h1
  have a: "parseLinks [?r1, ?r2, ?r3] = [js ''A'', js ''B''] \<and> link_cell ?r1 = trim (js '' A'')"
    by blast
  from parseLinks_first_seen
    [where rows = "[]" and r = ?r2 and r' = ?r2 and v = "js ''A ''" and A = "[]" and B = "[]"] h2
  have b: "link_cell ?r2 = trim (js ''A '')" by blast
  from parseLinks_first_seen
    [where rows = "[]" and r = ?r4 and r' = ?r1 and v = "[]" and A = "[]" and B = "[]"] h3
  have c: "link_cell ?r4 = link_cell ?r1" by blast
  from parseLinks_first_seen
    [where rows = "[]" and r = ?r5 and r' = ?r5 and v = "js ''B''" and A = "[]" and B = "[]"] h5
  have d: "link_cell ?r5 = trim (js ''B'')" by blast
  from parseLinks_first_seen
    [where rows = "[]" and r = ?r6 and r' = ?r6 and v = "js ''C''" and A = "[]" and B = "[]"] h6
  have e: "link_cell ?r6 = trim (js ''C'')" by blast
  from parseLinks_first_seen
    [where rows = "[]" and r = ?r7 and r' = ?r7 and v = "[]" and A = "[]" and B = "[]"] h7
  have f: "link_cell ?r7 = []" by blast
  from a b c d e f show ?thesis by blast
qed

text \<open>
  The claim as it stands fails: a column named \<open>LINK\<close> is "Link" up to letter case, and
  its value is not collected.
\<close>

theorem parseLinks_case_counterexample:
  "spec_link_column (js ''LINK'') \<and>
   trim (js ''A'') \<noteq> [] \<and>
   parseLinks [[js ''LINK'' \<mapsto> js ''A'']] = []"
  by (simp add: spec_link_column_def lower_ascii_def parseLinks_def array_from_set_def
      link_cell_def js_or_def truthy_def or_empty_def trim_def is_space_def js_def)

section \<open>Claims about the static extractor\<close>

text \<open>
  Claim C6. A failed request or parse gives the fallback, whose description is the
  default sentence. The description is not non-empty on every path, though: the
  emptiness test \<open>desc || DEFAULT\<close> comes before the text is normalised, so a
  description meta of one space is taken and then shortened to the empty string.
\<close>

theorem scrapeWithCheerio_blank_description:
  "scrapeWithCheerio None = \<lparr>title = [], description = DEFAULT_DESC, image_url = []\<rparr> \<and>
   DEFAULT_DESC \<noteq> [] \<and>
   description (scrapeWithCheerio (Some blank_page)) = DEFAULT_DESC \<and>
   description (scrapeWithCheerio (Some (blank_page\<lparr>meta_description := Some (js '' '')\<rparr>))) = []"
proof -
  have "description (scrapeWithCheerio (Some blank_page)) =
      shorten (Some DEFAULT_DESC) DEFAULT_LIMIT"
    by (simp add: scrapeWithCheerio_def blank_page_def js_or_def truthy_def or_empty_def
        or_default_def trim_def Let_def)
  then have "description (scrapeWithCheerio (Some blank_page)) = DEFAULT_DESC"
    by (simp only: shorten_default_desc)
  moreover have
    "description (scrapeWithCheerio (Some (blank_page\<lparr>meta_description := Some (js '' '')\<rparr>))) = []"
    by (simp add: scrapeWithCheerio_def blank_page_def js_or_def truthy_def or_empty_def
        or_default_def trim_def Let_def shorten_def DEFAULT_LIMIT_def js_def is_space_def
        SPACE_def)
  moreover have "DEFAULT_DESC \<noteq> []" by (simp add: DEFAULT_DESC_def js_def)
  ultimately show ?thesis by (simp add: scrapeWithCheerio_def FALLBACK_META_def)
qed

section \<open>Claims about the rendered extractor\<close>

text \<open>
  Claim C4, as amended. \<open>scrapeWithPuppeteer\<close> throws only when opening the page,
  setting its user agent or closing it fails. When these succeed it returns, having
  opened one page and closed it: what it extracted if nothing inside the \<open>try\<close> failed,
  and the fallback \<open>{title: '', description: DEFAULT_DESC, image: ''}\<close> on any failure
  there, such as a failed navigation. Whenever it returns, on either path, the page it
  opened has been closed before; and once the page is open and its user agent set,
  \<open>page.close()\<close> is called on every path.
\<close>

theorem scrapeWithPuppeteer_fallback_and_close:
  "(newPage_ok p \<and> setUserAgent_ok p \<and> close_ok p \<longrightarrow>
      (\<exists>m. scrapeWithPuppeteer p = (Inr m, [NewPage, ClosePage True]) \<and>
           (puppeteer_extract p = None \<longrightarrow> m = FALLBACK_META) \<and>
           (\<forall>m'. puppeteer_extract p = Some m' \<longrightarrow> m = m'))) \<and>
   (fst (scrapeWithPuppeteer p) = Inr r \<longrightarrow>
      (\<exists>evs. snd (scrapeWithPuppeteer p) = NewPage # evs @ [ClosePage True])) \<and>
   (fst (scrapeWithPuppeteer p) = Inl e \<longrightarrow>
      \<not> newPage_ok p \<or> \<not> setUserAgent_ok p \<or> \<not> close_ok p) \<and>
   (newPage_ok p \<and> setUserAgent_ok p \<longrightarrow>
      (\<exists>ok. ClosePage ok \<in> set (snd (scrapeWithPuppeteer p)))) \<and>
   (\<not> goto_ok p \<or> \<not> waitForTimeout_ok p \<or> rendered_title p = None \<or>
    rendered_description p = None \<longrightarrow> puppeteer_extract p = None)"
proof -
  have a: "newPage_ok p \<and> setUserAgent_ok p \<and> close_ok p \<longrightarrow>
      (\<exists>m. scrapeWithPuppeteer p = (Inr m, [NewPage, ClosePage True]) \<and>
           (puppeteer_extract p = None \<longrightarrow> m = FALLBACK_META) \<and>
           (\<forall>m'. puppeteer_extract p = Some m' \<longrightarrow> m = m'))"
    using scrapeWithPuppeteer_returns [of p] by (auto split: option.splits)
  have b: "fst (scrapeWithPuppeteer p) = Inr r \<longrightarrow>
      (\<exists>evs. snd (scrapeWithPuppeteer p) = NewPage # evs @ [ClosePage True])"
    using scrapeWithPuppeteer_closed by blast
  have c: "fst (scrapeWithPuppeteer p) = Inl e \<longrightarrow>
      \<not> newPage_ok p \<or> \<not> setUserAgent_ok p \<or> \<not> close_ok p"
    using scrapeWithPuppeteer_returns [of p] by auto
  have d: "newPage_ok p \<and> setUserAgent_ok p \<longrightarrow>
      (\<exists>ok. ClosePage ok \<in> set (snd (scrapeWithPuppeteer p)))"
    by (auto simp: scrapeWithPuppeteer_def split: option.splits)
  have e: "\<not> goto_ok p \<or> \<not> waitForTimeout_ok p \<or> rendered_title p = None \<or>
      rendered_description p = None \<longrightarrow> puppeteer_extract p = None"
    by (auto simp: puppeteer_extract_def split: option.splits)
  from a b c d e show ?thesis by blast
qed

theorem scrapeWithPuppeteer_fallback_and_close_witness:
  "scrapeWithPuppeteer (quiet_browser\<lparr>goto_ok := False\<rparr>) =
     (Inr FALLBACK_META, [NewPage, ClosePage True]) \<and>
   scrapeWithPuppeteer (quiet_browser\<lparr>eval_h1 := Some (js '' Deck '')\<rparr>) =
     (Inr \<lparr>title = js ''Deck'', description = DEFAULT_DESC, image_url = []\<rparr>,
      [NewPage, ClosePage True])"
proof -
  let ?p = "quiet_browser\<lparr>goto_ok := False\<rparr>"
  let ?q = "quiet_browser\<lparr>eval_h1 := Some (js '' Deck '')\<rparr>"
  have okp: "newPage_ok ?p \<and> setUserAgent_ok ?p \<and> close_ok ?p" "\<not> goto_ok ?p"
    by (simp_all add: quiet_browser_def)
  have okq: "newPage_ok ?q \<and> setUserAgent_ok ?q \<and> close_ok ?q"
    by (simp add: quiet_browser_def)
  have exq: "puppeteer_extract ?q =
      Some \<lparr>title = js ''Deck'', description = DEFAULT_DESC, image_url = []\<rparr>"
    by (simp add: puppeteer_extract_def rendered_title_def rendered_description_def
        rendered_image_def rendered_img_def quiet_browser_def catch_empty_def or_default_def
        or_empty_def js_or_def truthy_def fix_protocol_def shorten_default_desc
        trim_def is_space_def js_def)
  from scrapeWithPuppeteer_fallback_and_close [of ?p] okp
  have a: "scrapeWithPuppeteer ?p = (Inr FALLBACK_META, [NewPage, ClosePage True])"
    by metis
  from scrapeWithPuppeteer_fallback_and_close [of ?q] okq exq
  have b: "scrapeWithPuppeteer ?q =
      (Inr \<lparr>title = js ''Deck'', description = DEFAULT_DESC, image_url = []\<rparr>,
       [NewPage, ClosePage True])"
    by metis
  from a b show ?thesis by blast
qed

text \<open>
  The claim as it stands fails: a page that cannot be opened, and a \<open>page.close()\<close>
  that fails in the \<open>catch\<close>, are both outside the \<open>try\<close>, and the call throws.
\<close>

theorem scrapeWithPuppeteer_throws_counterexample:
  "fst (scrapeWithPuppeteer (quiet_browser\<lparr>newPage_ok := False\<rparr>)) = Inl NewPageFailed \<and>
   scrapeWithPuppeteer (quiet_browser\<lparr>goto_ok := False, close_ok := False\<rparr>) =
     (Inl PageCloseFailed, [NewPage, ClosePage False])"
  by (simp add: scrapeWithPuppeteer_def puppeteer_extract_def quiet_browser_def)

section \<open>Claims about the image rehoster\<close>

text \<open>
  Claim C7. \<open>uploadToCloudinary\<close> always returns a string. On empty input it returns
  the empty string and calls nothing. Otherwise it calls the provider once; when that
  call fails it makes one fallback attempt, the direct download followed, when the
  download succeeds, by one streamed upload, and returns the empty string when the
  fallback fails too. No call is made twice.
\<close>

theorem uploadToCloudinary_single_fallback:
  "uploadToCloudinary c [] = ([], []) \<and>
   (u \<noteq> [] \<and> upload c u = Some h \<longrightarrow> uploadToCloudinary c u = (h, [Upload u])) \<and>
   (u \<noteq> [] \<and> upload c u = None \<and> \<not> fetch_image_ok c u \<longrightarrow>
      uploadToCloudinary c u = ([], [Upload u, FetchImage u])) \<and>
   (u \<noteq> [] \<and> upload c u = None \<and> fetch_image_ok c u \<and> upload_stream c u = None \<longrightarrow>
      uploadToCloudinary c u = ([], [Upload u, FetchImage u, UploadStream u])) \<and>
   (u \<noteq> [] \<and> upload c u = None \<and> fetch_image_ok c u \<and> upload_stream c u = Some h \<longrightarrow>
      uploadToCloudinary c u = (h, [Upload u, FetchImage u, UploadStream u])) \<and>
   (snd (uploadToCloudinary c u) = [] \<or>
    snd (uploadToCloudinary c u) = [Upload u] \<or>
    snd (uploadToCloudinary c u) = [Upload u, FetchImage u] \<or>
    snd (uploadToCloudinary c u) = [Upload u, FetchImage u, UploadStream u])"
  by (auto simp: uploadToCloudinary_def split: option.splits)

theorem uploadToCloudinary_single_fallback_witness:
  "uploadToCloudinary provider_down (js ''http://x.io/a.png'') =
     ([], [Upload (js ''http://x.io/a.png''), FetchImage (js ''http://x.io/a.png'')]) \<and>
   uploadToCloudinary provider_up (js ''http://x.io/a.png'') =
     (js ''https://res.cloudinary.com/demo/image/upload/products/a.jpg'',
      [Upload (js ''http://x.io/a.png'')]) \<and>
   uploadToCloudinary (provider_down\<lparr>fetch_image_ok := (\<lambda>_. True)\<rparr>) (js ''http://x.io/a.png'') =
     ([], [Upload (js ''http://x.io/a.png''), FetchImage (js ''http://x.io/a.png''),
           UploadStream (js ''http://x.io/a.png'')])"
proof -
  let ?u = "js ''http://x.io/a.png''"
  have ne: "?u \<noteq> []" by (simp add: js_def)
  have down: "upload provider_down ?u = None \<and> \<not> fetch_image_ok provider_down ?u"
    by (simp add: provider_down_def)
  have up: "upload provider_up ?u =
      Some (js ''https://res.cloudinary.com/demo/image/upload/products/a.jpg'')"
    by (simp add: provider_up_def)
  let ?c = "provider_down\<lparr>fetch_image_ok := (\<lambda>_. True)\<rparr>"
  have half: "upload ?c ?u = None \<and> fetch_image_ok ?c ?u \<and> upload_stream ?c ?u = None"
    by (simp add: provider_down_def)
  from uploadToCloudinary_single_fallback [of provider_down ?u] ne down
  have a: "uploadToCloudinary provider_down ?u = ([], [Upload ?u, FetchImage ?u])" by blast
  from uploadToCloudinary_single_fallback [of provider_up ?u] ne up
  have b: "uploadToCloudinary provider_up ?u =
      (js ''https://res.cloudinary.com/demo/image/upload/products/a.jpg'', [Upload ?u])"
    by blast
  from uploadToCloudinary_single_fallback [of ?c ?u] ne half
  have c: "uploadToCloudinary ?c ?u = ([], [Upload ?u, FetchImage ?u, UploadStream ?u])"
    by blast
  from a b c show ?thesis by blast
qed

section \<open>Claims about the orchestrator\<close>

text \<open>
  Claim C1. While a link is processed the rendered extractor is called exactly when
  the static extractor returned an empty image: this holds for the processing of one
  link, and in the events of a whole run, from the link list on or from the sheet on,
  for every link the static extractor was called on. In particular a document with a
  non-empty \<open>og:image\<close> gives a non-empty image, and the rendered extractor is not
  called for its link.
\<close>

theorem rendered_iff_static_image_empty:
  "(CallPuppeteer u \<in> set (snd (process_link cloud lw u)) \<longleftrightarrow>
      image_url (scrapeWithCheerio (static_fetch lw)) = []) \<and>
   (CallPuppeteer v \<in> set (fst (snd (run cloud w links))) \<longleftrightarrow>
      CallCheerio v \<in> set (fst (snd (run cloud w links))) \<and>
      image_url (scrapeWithCheerio (static_fetch (link_env w v))) = []) \<and>
   (CallPuppeteer v \<in> set (fst (snd (main cloud w))) \<longleftrightarrow>
      CallCheerio v \<in> set (fst (snd (main cloud w))) \<and>
      image_url (scrapeWithCheerio (static_fetch (link_env w v))) = []) \<and>
   (static_fetch lw = Some pg \<and> meta_og_image pg = Some i \<and> i \<noteq> [] \<longrightarrow>
      image_url (scrapeWithCheerio (static_fetch lw)) \<noteq> [] \<and>
      CallPuppeteer u \<notin> set (snd (process_link cloud lw u)))"
proof -
  have one: "CallPuppeteer u \<in> set (snd (process_link cloud lw u)) \<longleftrightarrow>
      image_url (scrapeWithCheerio (static_fetch lw)) = []"
    using process_link_calls [of u cloud lw u] by simp
  have all: "CallPuppeteer v \<in> set (fst (snd (run cloud w ls))) \<longleftrightarrow>
      CallCheerio v \<in> set (fst (snd (run cloud w ls))) \<and>
      image_url (scrapeWithCheerio (static_fetch (link_env w v))) = []" for ls
    using run_calls [of v cloud w ls] process_links_calls [of v cloud "link_env w" ls "[]"]
    by blast
  have whole: "CallPuppeteer v \<in> set (fst (snd (main cloud w))) \<longleftrightarrow>
      CallCheerio v \<in> set (fst (snd (main cloud w))) \<and>
      image_url (scrapeWithCheerio (static_fetch (link_env w v))) = []"
  proof (cases "sheet w")
    case None
    then show ?thesis by (simp add: main_def)
  next
    case (Some rows)
    then have "main cloud w = run cloud w (parseLinks rows)" by (simp add: main_def)
    with all [of "parseLinks rows"] show ?thesis by simp
  qed
  have og: "static_fetch lw = Some pg \<and> meta_og_image pg = Some i \<and> i \<noteq> [] \<longrightarrow>
      image_url (scrapeWithCheerio (static_fetch lw)) \<noteq> [] \<and>
      CallPuppeteer u \<notin> set (snd (process_link cloud lw u))"
    using static_og_image [of pg i] one by auto
  from one all [of links] whole og show ?thesis by blast
qed

theorem rendered_iff_static_image_empty_witness:
  "CallPuppeteer demo_a \<notin> set (fst (snd (run (js ''demo'') demo_world [demo_a, demo_b]))) \<and>
   CallPuppeteer demo_b \<in> set (fst (snd (run (js ''demo'') demo_world [demo_a, demo_b]))) \<and>
   CallPuppeteer demo_a \<notin> set (snd (process_link (js ''demo'') link_with_image demo_a))"
proof -
  let ?tr = "fst (snd (run (js ''demo'') demo_world [demo_a, demo_b]))"
  have env: "link_env demo_world demo_a = link_with_image"
    "link_env demo_world demo_b = link_without_image"
    using demo_b_slash by (simp_all add: demo_world_def)
  have a: "image_url (scrapeWithCheerio (static_fetch (link_env demo_world demo_a))) \<noteq> []"
    by (simp add: env static_with_image js_def)
  have b: "image_url (scrapeWithCheerio (static_fetch (link_env demo_world demo_b))) = []"
    by (simp add: env link_without_image_def scrapeWithCheerio_def FALLBACK_META_def)
  have called: "CallCheerio demo_b \<in> set ?tr"
    by (simp add: demo_run)
  have og: "static_fetch link_with_image =
        Some (blank_page\<lparr>h1_first_text := js '' Deck '',
                         meta_og_image := Some (js ''//cdn.x.io/a.png'')\<rparr>) \<and>
      meta_og_image (blank_page\<lparr>h1_first_text := js '' Deck '',
                         meta_og_image := Some (js ''//cdn.x.io/a.png'')\<rparr>) =
        Some (js ''//cdn.x.io/a.png'') \<and> js ''//cdn.x.io/a.png'' \<noteq> []"
    by (simp add: link_with_image_def js_def)
  from rendered_iff_static_image_empty
    [where v = demo_a and cloud = "js ''demo''" and w = demo_world and links = "[demo_a, demo_b]"] a
  have 1: "CallPuppeteer demo_a \<notin> set ?tr" by blast
  from rendered_iff_static_image_empty
    [where v = demo_b and cloud = "js ''demo''" and w = demo_world and links = "[demo_a, demo_b]"]
    b called
  have 2: "CallPuppeteer demo_b \<in> set ?tr" by blast
  from rendered_iff_static_image_empty
    [where u = demo_a and cloud = "js ''demo''" and lw = link_with_image] og
  have 3: "CallPuppeteer demo_a \<notin> set (snd (process_link (js ''demo'') link_with_image demo_a))"
    by blast
  from 1 2 3 show ?thesis by blast
qed

text \<open>
  Claim C2. In the item list of a completed run every item's image is a non-empty URL:
  it is the hosted URL that \<open>uploadToCloudinary\<close> returned for the image of the link's
  metadata when that is non-empty, and the placeholder otherwise. The placeholder is a
  fixed, non-empty URL on the hosting provider, under the configured cloud name.
\<close>

theorem final_image_hosted_or_placeholder:
  "placeholder cloud \<noteq> [] \<and>
   startsWith (placeholder cloud) (js ''https://res.cloudinary.com/'' @ cloud) \<and>
   (run cloud w links = (Inr items, tr, fs) \<longrightarrow>
      (\<forall>it\<in>set items.
         image_url it \<noteq> [] \<and> url it \<in> set links \<and>
         (\<exists>meta. fst (extract_meta (link_env w (url it)) (url it)) = Inr meta \<and>
            image_url it =
              (if fst (uploadToCloudinary (uploader (link_env w (url it))) (image_url meta)) \<noteq> []
               then fst (uploadToCloudinary (uploader (link_env w (url it))) (image_url meta))
               else placeholder cloud))))"
proof -
  have item: "image_url it \<noteq> [] \<and> url it \<in> set links \<and>
      (\<exists>meta. fst (extract_meta (link_env w (url it)) (url it)) = Inr meta \<and>
         image_url it =
           (if fst (uploadToCloudinary (uploader (link_env w (url it))) (image_url meta)) \<noteq> []
            then fst (uploadToCloudinary (uploader (link_env w (url it))) (image_url meta))
            else placeholder cloud))"
    if r: "run cloud w links = (Inr items, tr, fs)" and it: "it \<in> set items" for it
  proof -
    from list_all2_right [OF run_items [OF r] it] obtain u where
      u: "u \<in> set links" and p: "fst (process_link cloud (link_env w u) u) = Inr it"
      by blast
    from process_link_item [OF p] obtain meta where
      m: "fst (extract_meta (link_env w u) u) = Inr meta"
      and f: "it = fst (finish cloud (link_env w u) u meta)"
      by blast
    from f have url: "url it = u" by (simp add: finish_item)
    from f have img: "image_url it =
        (if fst (uploadToCloudinary (uploader (link_env w u)) (image_url meta)) \<noteq> []
         then fst (uploadToCloudinary (uploader (link_env w u)) (image_url meta))
         else placeholder cloud)"
      by (simp add: finish_item)
    then have "image_url it \<noteq> []" using placeholder_nonempty [of cloud] by auto
    with u m img show ?thesis unfolding url by blast
  qed
  have "startsWith (placeholder cloud) (js ''https://res.cloudinary.com/'' @ cloud)"
    by (simp add: startsWith_def placeholder_def)
  with item placeholder_nonempty [of cloud] show ?thesis by blast
qed

theorem final_image_hosted_or_placeholder_witness:
  "run (js ''demo'') demo_world [demo_a, demo_b] =
     (Inr [item_a, item_b (js ''demo'')],
      [Launch, CallCheerio demo_a, Upload (js ''https://cdn.x.io/a.png''),
       CallCheerio demo_b, CallPuppeteer demo_b, NewPage, ClosePage True, BrowserClose],
      [(js ''data.json'', JsonText (JArray (map item_json [item_a, item_b (js ''demo'')]))),
       (js ''products.csv'', Text (utf8_text (products_csv [item_a, item_b (js ''demo'')]))),
       (js ''index.html'', Text (utf8_text (htmlTemplate [item_a, item_b (js ''demo'')])))]) \<and>
   image_url item_a = js ''https://res.cloudinary.com/demo/image/upload/products/a.jpg'' \<and>
   image_url (item_b (js ''demo'')) = placeholder (js ''demo'') \<and>
   image_url item_a \<noteq> [] \<and> image_url (item_b (js ''demo'')) \<noteq> []"
proof -
  note r = demo_run [of "js ''demo''"]
  from final_image_hosted_or_placeholder
    [where cloud = "js ''demo''" and w = demo_world and links = "[demo_a, demo_b]"] r
  have "\<forall>it\<in>set [item_a, item_b (js ''demo'')]. image_url it \<noteq> []" by blast
  then have "image_url item_a \<noteq> [] \<and> image_url (item_b (js ''demo'')) \<noteq> []" by simp
  moreover have "image_url item_a = js ''https://res.cloudinary.com/demo/image/upload/products/a.jpg''"
    "image_url (item_b (js ''demo'')) = placeholder (js ''demo'')"
    by (simp_all add: item_a_def item_b_def)
  ultimately show ?thesis using r by blast
qed




text \<open>
  Claim C10. For a link that ends with \<open>/\<close> the title derived from the link is the
  empty string, its last path segment being empty. When the extracted title is empty
  too, the item gets the empty title, and a completed run has such an item in its
  final list.
\<close>

theorem empty_title_for_trailing_slash:
  "(u \<noteq> [] \<and> last u = SLASH \<longrightarrow> url_title u = []) \<and>
   (u \<noteq> [] \<and> last u = SLASH \<and> title meta = [] \<longrightarrow>
      title (fst (finish cloud lw u meta)) = []) \<and>
   (run cloud w links = (Inr items, tr, fs) \<and> u \<in> set links \<and> u \<noteq> [] \<and> last u = SLASH \<and>
    fst (extract_meta (link_env w u) u) = Inr meta \<and> title meta = [] \<longrightarrow>
      (\<exists>it\<in>set items. url it = u \<and> title it = []))"
proof -
  have t: "url_title u = []" if "u \<noteq> []" "last u = SLASH"
    using that by (rule url_title_trailing_slash)
  have f: "title (fst (finish cloud lw u meta)) = []"
    if "u \<noteq> []" "last u = SLASH" "title meta = []" for lw
    using that t by (simp add: finish_item)
  have r: "\<exists>it\<in>set items. url it = u \<and> title it = []"
    if run: "run cloud w links = (Inr items, tr, fs)" and u: "u \<in> set links"
      and s: "u \<noteq> []" "last u = SLASH"
      and m: "fst (extract_meta (link_env w u) u) = Inr meta" "title meta = []"
  proof -
    from list_all2_left [OF run_items [OF run] u] obtain it where
      it: "it \<in> set items" and p: "fst (process_link cloud (link_env w u) u) = Inr it"
      by blast
    from process_link_item [OF p] m have "it = fst (finish cloud (link_env w u) u meta)"
      by auto
    with f [OF s m(2)] have "url it = u \<and> title it = []" by (simp add: finish_item)
    with it show ?thesis by blast
  qed
  from t f r show ?thesis by blast
qed

theorem empty_title_for_trailing_slash_witness:
  "demo_b \<noteq> [] \<and> last demo_b = SLASH \<and> url_title demo_b = [] \<and>
   fst (run (js ''demo'') demo_world [demo_a, demo_b]) = Inr [item_a, item_b (js ''demo'')] \<and>
   (\<exists>it\<in>set [item_a, item_b (js ''demo'')]. url it = demo_b \<and> title it = [])"
proof -
  note r = demo_run [of "js ''demo''"]
  have m: "fst (extract_meta (link_env demo_world demo_b) demo_b) = Inr FALLBACK_META"
    "title FALLBACK_META = []"
    using demo_b_slash
    by (simp_all add: demo_world_def extract_meta_cases link_without_image_def
        scrapeWithCheerio_def rendered_quiet FALLBACK_META_def)
  have u: "demo_b \<in> set [demo_a, demo_b]" by simp
  from empty_title_for_trailing_slash
    [where u = demo_b and meta = FALLBACK_META and cloud = "js ''demo''" and w = demo_world
       and links = "[demo_a, demo_b]"]
    demo_b_slash r m u
  have "url_title demo_b = [] \<and>
      (\<exists>it\<in>set [item_a, item_b (js ''demo'')]. url it = demo_b \<and> title it = [])"
    by blast
  with demo_b_slash r show ?thesis by simp
qed

section \<open>Claims about the rendered page\<close>

lemma replace_all_concat_map:
  "replace_all c rep (concat (map f s)) = concat (map (\<lambda>x. replace_all c rep (f x)) s)"
  by (induction s) (simp_all add: replace_all_def)

lemma esc_char_passes:
  "replace_all DQUOTE (js ''&quot;'')
     (replace_all GT (js ''&gt;'')
       (replace_all LT (js ''&lt;'') (if x = AMP then js ''&amp;'' else [x]))) = esc_char x"
  by (simp add: replace_all_def esc_char_def js_def AMP_def LT_def GT_def DQUOTE_def)

lemma esc_one_pass: "esc s = concat (map esc_char s)"
proof -
  have first: "replace_all AMP (js ''&amp;'') s =
      concat (map (\<lambda>x. if x = AMP then js ''&amp;'' else [x]) s)"
    by (simp add: replace_all_def)
  have "esc s =
      concat (map (\<lambda>x. replace_all DQUOTE (js ''&quot;'')
        (replace_all GT (js ''&gt;'')
          (replace_all LT (js ''&lt;'') (if x = AMP then js ''&amp;'' else [x])))) s)"
    by (simp only: esc_def first replace_all_concat_map)
  then show ?thesis by (simp only: esc_char_passes)
qed

lemma esc_char_no_markup: "LT \<notin> set (esc_char c) \<and> GT \<notin> set (esc_char c) \<and> DQUOTE \<notin> set (esc_char c)"
  by (simp add: esc_char_def js_def AMP_def LT_def GT_def DQUOTE_def)

lemma esc_no_markup: "LT \<notin> set (esc s) \<and> GT \<notin> set (esc s) \<and> DQUOTE \<notin> set (esc s)"
  using esc_char_no_markup by (auto simp: esc_one_pass)

lemma filter_markup_esc: "filter is_markup (esc s) = []"
  using esc_no_markup [of s] by (auto simp: filter_empty_conv is_markup_def)

lemma unescape_esc_char: "unescape (esc_char c @ rest) = c # unescape rest"
  by (simp add: esc_char_def startsWith_def js_def AMP_def LT_def GT_def DQUOTE_def)

lemma unescape_esc: "unescape (esc s) = s"
  by (induction s) (simp_all add: esc_one_pass unescape_esc_char)

lemma filter_markup_card: "filter is_markup (card it) = filter is_markup (card it')"
  by (simp add: card_def filter_markup_esc)

lemma filter_markup_join_Cons:
  "filter is_markup (join [NEWLINE] (c # cs)) =
   filter is_markup c @
   (if cs = [] then [] else filter is_markup [NEWLINE] @ filter is_markup (join [NEWLINE] cs))"
  by (cases cs) simp_all

lemma filter_markup_cards:
  "length items = length items' \<Longrightarrow>
   filter is_markup (join [NEWLINE] (map card items)) =
   filter is_markup (join [NEWLINE] (map card items'))"
proof (induction items arbitrary: items')
  case Nil
  then show ?case by simp
next
  case (Cons it items)
  then obtain it' rest where items': "items' = it' # rest" and len: "length items = length rest"
    by (cases items') auto
  from len have empty: "map card items = [] \<longleftrightarrow> map card rest = []" by auto
  have "filter is_markup (join [NEWLINE] (map card (it # items))) =
      filter is_markup (card it') @
      (if map card rest = [] then []
       else filter is_markup [NEWLINE] @ filter is_markup (join [NEWLINE] (map card rest)))"
    unfolding list.map filter_markup_join_Cons empty Cons.IH [OF len]
      filter_markup_card [of it it'] ..
  also have "\<dots> = filter is_markup (join [NEWLINE] (map card (it' # rest)))"
    unfolding list.map filter_markup_join_Cons ..
  finally show ?case unfolding items' .
qed

lemma runs_nonempty: "runs s \<noteq> []"
  by (induction s) (auto split: list.splits)

lemma runs_plain_append:
  assumes "\<forall>c\<in>set a. \<not> is_markup c"
  shows "runs (a @ b) = (case runs b of r # rs \<Rightarrow> (a @ r) # rs | [] \<Rightarrow> [a])"
  using assms
proof (induction a)
  case Nil
  show ?case using runs_nonempty [of b] by (cases "runs b") simp_all
next
  case (Cons c a)
  then show ?case using runs_nonempty [of b] by (cases "runs b") simp_all
qed

lemma runs_esc_append:
  "runs (esc x @ b) = (case runs b of r # rs \<Rightarrow> (esc x @ r) # rs | [] \<Rightarrow> [esc x])"
proof (rule runs_plain_append)
  show "\<forall>c\<in>set (esc x). \<not> is_markup c"
    using esc_no_markup [of x] by (auto simp: is_markup_def)
qed

lemma runs_card:
  "runs (card it) =
     [js ''\<newline>    '',
      js ''article class='',
      js ''card'',
      [],
      js ''\<newline>      '',
      js ''div class='',
      js ''cover'',
      [],
      [],
      js ''img src='',
      esc (image_url it),
      js '' alt='',
      esc (title it) @ js '' cover'',
      js '' /'',
      [],
      js ''/div'',
      js ''\<newline>      '',
      js ''div class='',
      js ''content'',
      [],
      js ''\<newline>        '',
      js ''div class='',
      js ''title'',
      [],
      esc (title it),
      js ''/div'',
      js ''\<newline>        '',
      js ''div class='',
      js ''desc'',
      [],
      esc (description it),
      js ''/div'',
      js ''\<newline>        '',
      js ''div class='',
      js ''actions'',
      [],
      [],
      js ''a class='',
      js ''btn'',
      js '' href='',
      esc (url it),
      js '' target='',
      js ''_blank'',
      js '' rel='',
      js ''noopener'',
      [],
      js ''Download for Free'',
      js ''/a'',
      [],
      js ''/div'',
      js ''\<newline>      '',
      js ''/div'',
      js ''\<newline>    '',
      js ''/article'',
      js ''\<newline>  '']"
  by (simp add: card_def js_def runs_esc_append is_markup_def LT_def GT_def DQUOTE_def)

lemma card_in_join:
  "it \<in> set items \<Longrightarrow> \<exists>pre post. join sep (map card items) = pre @ card it @ post"
proof (induction items)
  case Nil
  then show ?case by simp
next
  case (Cons a items)
  show ?case
  proof (cases items)
    case Nil
    with Cons.prems have "join sep (map card (a # items)) = [] @ card it @ []" by simp
    then show ?thesis by blast
  next
    case (Cons b rest)
    then have j: "join sep (map card (a # items)) = card a @ sep @ join sep (map card items)"
      by simp
    show ?thesis
    proof (cases "it = a")
      case True
      with j have "join sep (map card (a # items)) =
          [] @ card it @ (sep @ join sep (map card items))" by simp
      then show ?thesis by blast
    next
      case False
      with Cons.prems have "it \<in> set items" by simp
      from Cons.IH [OF this] obtain pre post where
        "join sep (map card items) = pre @ card it @ post" by blast
      with j have "join sep (map card (a # items)) = (card a @ sep @ pre) @ card it @ post"
        by simp
      then show ?thesis by blast
    qed
  qed
qed

lemma card_in_page:
  assumes "it \<in> set items"
  shows "\<exists>pre post. htmlTemplate items = pre @ card it @ post"
proof -
  from card_in_join [OF assms, of "[NEWLINE]"] obtain pre post where
    "join [NEWLINE] (map card items) = pre @ card it @ post" by blast
  then have "htmlTemplate items = (html_head @ pre) @ card it @ (post @ html_tail)"
    by (simp add: htmlTemplate_def)
  then show ?thesis by blast
qed

text \<open>
  Claim C9. The escaping function writes no raw \<open><\<close>, \<open>>\<close> or \<open>"\<close>, and decoding its
  output gives the field back, so a field is shown as the text it is: \<open><script>\<close>
  becomes \<open>&lt;script&gt;\<close>. The card of an item, read as the runs of characters
  between its markup characters, holds the escaped image as the value of \<open>src\<close>, the
  escaped title in the value of \<open>alt\<close> and as the text of the title element, the
  escaped description as the text of the description element and the escaped link as
  the value of \<open>href\<close>; every other run is fixed text of the template. The page
  is the head, the cards of its items in order, one per line, and the tail, so it
  contains the card of each item; and its markup characters are those of the template
  alone: two item lists of the same length give pages with the same markup characters,
  whatever the fields hold.
\<close>

theorem html_fields_escaped:
  "LT \<notin> set (esc s) \<and> GT \<notin> set (esc s) \<and> DQUOTE \<notin> set (esc s) \<and>
   unescape (esc s) = s \<and>
   esc (js ''<script>'') = js ''&lt;script&gt;'' \<and>
   runs (card it) =
     [js ''\<newline>    '',
      js ''article class='',
      js ''card'',
      [],
      js ''\<newline>      '',
      js ''div class='',
      js ''cover'',
      [],
      [],
      js ''img src='',
      esc (image_url it),
      js '' alt='',
      esc (title it) @ js '' cover'',
      js '' /'',
      [],
      js ''/div'',
      js ''\<newline>      '',
      js ''div class='',
      js ''content'',
      [],
      js ''\<newline>        '',
      js ''div class='',
      js ''title'',
      [],
      esc (title it),
      js ''/div'',
      js ''\<newline>        '',
      js ''div class='',
      js ''desc'',
      [],
      esc (description it),
      js ''/div'',
      js ''\<newline>        '',
      js ''div class='',
      js ''actions'',
      [],
      [],
      js ''a class='',
      js ''btn'',
      js '' href='',
      esc (url it),
      js '' target='',
      js ''_blank'',
      js '' rel='',
      js ''noopener'',
      [],
      js ''Download for Free'',
      js ''/a'',
      [],
      js ''/div'',
      js ''\<newline>      '',
      js ''/div'',
      js ''\<newline>    '',
      js ''/article'',
      js ''\<newline>  ''] \<and>
   filter is_markup (card it) = filter is_markup (card it') \<and>
   htmlTemplate items = html_head @ join [NEWLINE] (map card items) @ html_tail \<and>
   (it \<in> set items \<longrightarrow> (\<exists>pre post. htmlTemplate items = pre @ card it @ post)) \<and>
   (length items = length items' \<longrightarrow>
      filter is_markup (htmlTemplate items) = filter is_markup (htmlTemplate items'))"
proof -
  have "esc (js ''<script>'') = js ''&lt;script&gt;''"
    by (simp add: esc_one_pass esc_char_def js_def AMP_def LT_def GT_def DQUOTE_def)
  moreover have "length items = length items' \<longrightarrow>
      filter is_markup (htmlTemplate items) = filter is_markup (htmlTemplate items')"
  proof
    assume "length items = length items'"
    from filter_markup_cards [OF this]
    show "filter is_markup (htmlTemplate items) = filter is_markup (htmlTemplate items')"
      by (simp only: htmlTemplate_def filter_append)
  qed
  moreover have "it \<in> set items \<longrightarrow> (\<exists>pre post. htmlTemplate items = pre @ card it @ post)"
    using card_in_page by blast
  moreover have "htmlTemplate items = html_head @ join [NEWLINE] (map card items) @ html_tail"
    by (simp add: htmlTemplate_def)
  moreover note esc_no_markup [of s] unescape_esc [of s] filter_markup_card [of it it']
    runs_card [of it]
  ultimately show ?thesis by (intro conjI) (assumption | elim conjE)+
qed

theorem html_fields_escaped_witness:
  "length [\<lparr>title = js ''<script>'', description = js ''a > b'', image_url = js ''x'',
             url = js ''u''\<rparr>] =
   length [\<lparr>title = [], description = [], image_url = [], url = []\<rparr>] \<and>
   filter is_markup
     (htmlTemplate [\<lparr>title = js ''<script>'', description = js ''a > b'', image_url = js ''x'',
                     url = js ''u''\<rparr>]) =
   filter is_markup (htmlTemplate [\<lparr>title = [], description = [], image_url = [], url = []\<rparr>]) \<and>
   unescape (esc (js ''<b>&amp;'')) = js ''<b>&amp;'' \<and>
   runs (card \<lparr>title = js ''<script>'', description = js ''a > b'', image_url = js ''x'',
               url = js ''u''\<rparr>) ! 24 = js ''&lt;script&gt;'' \<and>
   (\<exists>pre post.
      htmlTemplate [\<lparr>title = js ''<script>'', description = js ''a > b'', image_url = js ''x'',
                     url = js ''u''\<rparr>] =
      pre @ card \<lparr>title = js ''<script>'', description = js ''a > b'', image_url = js ''x'',
                   url = js ''u''\<rparr> @ post)"
proof -
  let ?it = "\<lparr>title = js ''<script>'', description = js ''a > b'', image_url = js ''x'',
              url = js ''u''\<rparr>"
  let ?blank = "\<lparr>title = [], description = [], image_url = [], url = []\<rparr>"
  have len: "length [?it] = length [?blank]" by simp
  have mem: "?it \<in> set [?it]" by simp
  note t = html_fields_escaped
    [where s = "js ''<b>&amp;''" and it = ?it and it' = ?blank and items = "[?it]"
       and items' = "[?blank]"]
  from t len have a: "filter is_markup (htmlTemplate [?it]) = filter is_markup (htmlTemplate [?blank])"
    by (elim conjE) simp
  from t have b: "unescape (esc (js ''<b>&amp;'')) = js ''<b>&amp;''"
    by (elim conjE)
  from t mem have c: "\<exists>pre post. htmlTemplate [?it] = pre @ card ?it @ post"
    by (elim conjE) simp
  from t have "runs (card ?it) ! 24 = esc (title ?it) \<and> esc (js ''<script>'') = js ''&lt;script&gt;''"
    by (elim conjE) simp
  then have d: "runs (card ?it) ! 24 = js ''&lt;script&gt;''" by simp
  from len a b c d show ?thesis by (intro conjI)
qed

end
